theory Spec2Isabelle
  imports Complex_Main "HOL-Library.AList" "HOL-Library.Product_Lexorder"
begin

section \<open>Values, tables and the object store\<close>

text \<open>
  The analyzer works on pandas tables. A table cell is a string, a number, a missing value
  or a parsed calendar date. Numbers are exact reals: the rounding of the machine's floats
  is outside the model, but what float division does at zero is kept (\<open>PInf\<close>,
  \<open>NInf\<close>, \<open>NaN\<close>), since HOL's own \<open>x / 0 = 0\<close> is not what the program computes.
  \<open>Num 0\<close> stands for both signed zeros.
\<close>

datatype cell =
    Str string
  | Num real
  | PInf
  | NInf
  | NaN
  | Timestamp nat nat nat   \<comment> \<open>year, month, day\<close>

text \<open>Every exception the pipeline can raise is a value.\<close>

datatype error =
    KeyError string
  | TypeError
  | ValueError
  | RequestException
  | JSONDecodeError
  | OSError
  | BadAddress   \<comment> \<open>not a Python error: an address outside the store\<close>

text \<open>
  A column is a list of cells. A DataFrame is its columns in their order, each under its
  label; the number of rows is the length of the columns.
\<close>

type_synonym series = "cell list"
type_synonym dataframe = "(string \<times> series) list"

text \<open>
  A Python dict keeps its keys in insertion order, and an assignment to a key that is
  already there leaves the key where it is: an association list under \<open>AList.update\<close>.
\<close>

type_synonym 'v dict = "(string \<times> 'v) list"

text \<open>
  DataFrames are mutable objects that the dicts of the program hold by reference. The
  store is the list of all DataFrames made so far; an address is a position in it, and a
  new object goes to the end.
\<close>

type_synonym addr = nat
type_synonym heap = "dataframe list"

definition new :: "heap \<Rightarrow> dataframe \<Rightarrow> addr \<times> heap" where
  "new h df = (length h, h @ [df])"

definition deref :: "heap \<Rightarrow> addr \<Rightarrow> error + dataframe" where
  "deref h a = (if a < length h then Inr (h ! a) else Inl BadAddress)"

subsection \<open>The pandas operations the program calls\<close>

definition nrows :: "dataframe \<Rightarrow> nat" where
  "nrows df = (case df of [] \<Rightarrow> 0 | (_, col) # _ \<Rightarrow> length col)"

definition cell_at :: "series \<Rightarrow> nat \<Rightarrow> cell" where
  "cell_at col i = (if i < length col then col ! i else NaN)"

text \<open>\<open>pd.DataFrame(records)\<close>: the columns are the keys in the order they first appear;
  a record without a key has a missing value there.\<close>

definition first_seen :: "'a list \<Rightarrow> 'a list" where
  "first_seen xs = rev (remdups (rev xs))"

definition DataFrame :: "(string \<times> cell) list list \<Rightarrow> dataframe" where
  "DataFrame records =
     map (\<lambda>c. (c, map (\<lambda>r. case map_of r c of Some v \<Rightarrow> v | None \<Rightarrow> NaN) records))
         (first_seen (concat (map (map fst) records)))"

text \<open>\<open>df[name]\<close> reads a column and raises KeyError when there is none.\<close>

definition getcol :: "dataframe \<Rightarrow> string \<Rightarrow> error + series" where
  "getcol df name = (case map_of df name of None \<Rightarrow> Inl (KeyError name) | Some col \<Rightarrow> Inr col)"

text \<open>\<open>df[name] = col\<close> replaces the column of that label where it stands, or adds the
  column at the end.\<close>

definition setcol :: "dataframe \<Rightarrow> string \<Rightarrow> series \<Rightarrow> dataframe" where
  "setcol df name col = AList.update name col df"

text \<open>\<open>df.to_dict(orient="records")\<close>: one dict per row, keyed by the column labels.\<close>

definition to_dict :: "dataframe \<Rightarrow> cell dict list" where
  "to_dict df = map (\<lambda>i. map (\<lambda>(name, col). (name, cell_at col i)) df) [0..<nrows df]"

section \<open>The Data Provider\<close>

record project_tables =
  crashes :: addr
  coverage :: addr

definition coverage_base :: "string \<rightharpoonup> real" where
  "coverage_base = [''zlib'' \<mapsto> 70, ''libpng'' \<mapsto> 75, ''openssl'' \<mapsto> 65]"

definition crash_data :: "(string \<times> cell) list list" where
  "crash_data =
    [ [(''date'', Str ''15-01-2025''), (''crash_hash'', Str ''mno345''), (''type'', Str ''null-pointer'')],
     [(''date'', Str ''28-01-2025''), (''crash_hash'', Str ''pqr678''), (''type'', Str ''division-by-zero'')],
     [(''date'', Str ''31-01-2025''), (''crash_hash'', Str ''jkl012''), (''type'', Str ''integer-overflow'')],
     [(''date'', Str ''10-02-2025''), (''crash_hash'', Str ''stu901''), (''type'', Str ''buffer-overflow'')],
     [(''date'', Str ''20-02-2025''), (''crash_hash'', Str ''vwx234''), (''type'', Str ''race-condition'')],
     [(''date'', Str ''25-02-2025''), (''crash_hash'', Str ''ghi789''), (''type'', Str ''stack-overflow'')],
     [(''date'', Str ''06-03-2025''), (''crash_hash'', Str ''def456''), (''type'', Str ''use-after-free'')],
     [(''date'', Str ''06-03-2025''), (''crash_hash'', Str ''abc123''), (''type'', Str ''heap-overflow'')],
     [(''date'', Str ''15-03-2025''), (''crash_hash'', Str ''abc123''), (''type'', Str ''heap-overflow'')]]"

definition coverage_data :: "real \<Rightarrow> (string \<times> cell) list list" where
  "coverage_data base =
    [ [(''date'', Str ''15-01-2025''), (''coverage'', Num base)],
     [(''date'', Str ''28-01-2025''), (''coverage'', Num (base + 3))],
     [(''date'', Str ''31-01-2025''), (''coverage'', Num (base + 5))],
     [(''date'', Str ''10-02-2025''), (''coverage'', Num (base + 7))],
     [(''date'', Str ''20-02-2025''), (''coverage'', Num (base + 10))],
     [(''date'', Str ''25-02-2025''), (''coverage'', Num (base + 12))],
     [(''date'', Str ''06-03-2025''), (''coverage'', Num (base + 15))],
     [(''date'', Str ''06-03-2025''), (''coverage'', Num (base + 17))],
     [(''date'', Str ''15-03-2025''), (''coverage'', Num (base + 20))]]"

text \<open>
  The loop of \<open>fetch_project_data\<close>, with the dict built so far and the store. The
  baseline is looked up before the two DataFrames are made, so an unlisted project raises
  KeyError and leaves the store as the earlier projects left it.
\<close>

fun fetch_data_loop ::
  "string list \<Rightarrow> project_tables dict \<Rightarrow> heap \<Rightarrow> (error + project_tables dict) \<times> heap" where
  "fetch_data_loop [] project_data h = (Inr project_data, h)"
| "fetch_data_loop (project # rest) project_data h =
     (case coverage_base project of
        None \<Rightarrow> (Inl (KeyError project), h)
      | Some base \<Rightarrow>
          (let (c, h1) = new h (DataFrame crash_data);
               (v, h2) = new h1 (DataFrame (coverage_data base))
           in fetch_data_loop rest
                (AList.update project \<lparr>crashes = c, coverage = v\<rparr> project_data) h2))"

definition fetch_project_data ::
  "string list \<Rightarrow> heap \<Rightarrow> (error + project_tables dict) \<times> heap" where
  "fetch_project_data project_names h = fetch_data_loop project_names [] h"

section \<open>The Analyzer\<close>

subsection \<open>Float arithmetic on cells\<close>

fun is_number :: "cell \<Rightarrow> bool" where
  "is_number (Num _) = True"
| "is_number PInf = True"
| "is_number NInf = True"
| "is_number NaN = True"
| "is_number (Str _) = False"
| "is_number (Timestamp _ _ _) = False"

fun fsign :: "cell \<Rightarrow> real" where
  "fsign (Num a) = sgn a"
| "fsign PInf = 1"
| "fsign NInf = - 1"
| "fsign _ = 0"

definition of_sign :: "real \<Rightarrow> cell" where
  "of_sign s = (if 0 < s then PInf else if s < 0 then NInf else NaN)"

fun fadd :: "cell \<Rightarrow> cell \<Rightarrow> cell" where
  "fadd (Num a) (Num b) = Num (a + b)"
| "fadd NaN _ = NaN"
| "fadd _ NaN = NaN"
| "fadd PInf NInf = NaN"
| "fadd NInf PInf = NaN"
| "fadd PInf _ = PInf"
| "fadd _ PInf = PInf"
| "fadd NInf _ = NInf"
| "fadd _ NInf = NInf"
| "fadd _ _ = NaN"

fun fneg :: "cell \<Rightarrow> cell" where
  "fneg (Num a) = Num (- a)"
| "fneg PInf = NInf"
| "fneg NInf = PInf"
| "fneg x = x"

definition fsub :: "cell \<Rightarrow> cell \<Rightarrow> cell" where
  "fsub x y = fadd x (fneg y)"

fun fmul :: "cell \<Rightarrow> cell \<Rightarrow> cell" where
  "fmul (Num a) (Num b) = Num (a * b)"
| "fmul NaN _ = NaN"
| "fmul _ NaN = NaN"
| "fmul x y = of_sign (fsign x * fsign y)"

text \<open>Division by zero gives an infinity of the dividend's sign, and \<open>0 / 0\<close> is NaN.\<close>

fun fdiv :: "cell \<Rightarrow> cell \<Rightarrow> cell" where
  "fdiv (Num a) (Num b) = (if b = 0 then of_sign a else Num (a / b))"
| "fdiv NaN _ = NaN"
| "fdiv _ NaN = NaN"
| "fdiv (Num a) _ = Num 0"
| "fdiv x (Num b) = of_sign (fsign x * (if b < 0 then - 1 else 1))"
| "fdiv _ _ = NaN"

subsection \<open>Column operations\<close>

text \<open>Arithmetic on a column that holds anything but numbers raises TypeError.\<close>

definition series_div :: "series \<Rightarrow> series \<Rightarrow> error + series" where
  "series_div xs ys =
     (if list_all is_number xs \<and> list_all is_number ys then Inr (map2 fdiv xs ys)
      else Inl TypeError)"

definition series_sub :: "series \<Rightarrow> cell \<Rightarrow> series" where
  "series_sub xs c = map (\<lambda>x. fsub x c) xs"

definition series_mul :: "series \<Rightarrow> cell \<Rightarrow> series" where
  "series_mul xs c = map (\<lambda>x. fmul x c) xs"

text \<open>\<open>Series.nunique()\<close> counts the distinct values, missing values left out.\<close>

definition nunique :: "series \<Rightarrow> nat" where
  "nunique xs = length (remdups (filter (\<lambda>x. x \<noteq> NaN) xs))"

text \<open>
  \<open>Series.mean()\<close> skips missing values; the mean of nothing is NaN. Inside the analyzer
  a column of dates ends in TypeError as a column of strings does (at \<open>float(...)\<close> or
  at the division of \<open>pct_change\<close>, before anything is stored), so one error stands for
  both.
\<close>

definition mean :: "series \<Rightarrow> error + cell" where
  "mean xs =
     (if \<not> list_all is_number xs then Inl TypeError
      else let vs = filter (\<lambda>x. x \<noteq> NaN) xs
           in if vs = [] then Inr NaN
              else Inr (fdiv (foldl fadd (Num 0) vs) (Num (real (length vs)))))"

text \<open>
  \<open>Series.pct_change()\<close> is \<open>data / data.shift(1) - 1\<close>, where \<open>data\<close> is the column
  with each missing value replaced by the last value before it (the default fill of
  pandas 2). On a column without missing values the fill changes nothing.
\<close>

fun ffill :: "cell \<Rightarrow> series \<Rightarrow> series" where
  "ffill prev [] = []"
| "ffill prev (x # xs) = (if x = NaN then prev # ffill prev xs else x # ffill x xs)"

definition shift :: "series \<Rightarrow> series" where
  "shift xs = (if xs = [] then [] else NaN # butlast xs)"

definition pct_change :: "series \<Rightarrow> error + series" where
  "pct_change xs =
     (let data = ffill NaN xs
      in case series_div data (shift data) of
           Inl e \<Rightarrow> Inl e
         | Inr q \<Rightarrow> Inr (series_sub q (Num 1)))"

text \<open>
  \<open>Series.astype(str)\<close> keeps a string and turns any other cell into its Python string
  form. How Python prints a float is not part of this program: \<open>py_str\<close> is a parameter.
\<close>

definition astype_str :: "(cell \<Rightarrow> string) \<Rightarrow> series \<Rightarrow> series" where
  "astype_str py_str xs = map (\<lambda>c. case c of Str s \<Rightarrow> Str s | _ \<Rightarrow> Str (py_str c)) xs"

subsection \<open>\<open>analyze_project_data\<close>\<close>

record analysis_record =
  unique_crashes :: int
  avg_coverage :: cell
  coverage_trend :: "cell dict list"

text \<open>
  One round of the loop. \<open>coverage_df\<close> is the stored table itself, not a copy: both
  column assignments write to the store at the table's address.
\<close>

definition analyze_project ::
  "(cell \<Rightarrow> string) \<Rightarrow> project_tables \<Rightarrow> heap \<Rightarrow> (error + analysis_record) \<times> heap" where
  "analyze_project py_str data h =
     (case deref h (crashes data) of Inl e \<Rightarrow> (Inl e, h) | Inr crashes_df \<Rightarrow>
      case getcol crashes_df ''crash_hash'' of Inl e \<Rightarrow> (Inl e, h) | Inr hashes \<Rightarrow>
      case deref h (coverage data) of Inl e \<Rightarrow> (Inl e, h) | Inr coverage_df \<Rightarrow>
      case getcol coverage_df ''coverage'' of Inl e \<Rightarrow> (Inl e, h) | Inr cov \<Rightarrow>
      case mean cov of Inl e \<Rightarrow> (Inl e, h) | Inr avg \<Rightarrow>
      case pct_change cov of Inl e \<Rightarrow> (Inl e, h) | Inr pct \<Rightarrow>
        (let df1 = setcol coverage_df ''growth_rate'' (series_mul pct (Num 100));
             h1 = h[coverage data := df1]
         in case getcol df1 ''date'' of Inl e \<Rightarrow> (Inl e, h1) | Inr dates \<Rightarrow>
              (let df2 = setcol df1 ''date'' (astype_str py_str dates);
                   h2 = h1[coverage data := df2]
               in (Inr \<lparr>unique_crashes = int (nunique hashes),
                         avg_coverage = avg,
                         coverage_trend = to_dict df2\<rparr>, h2))))"

fun analyze_loop ::
  "(cell \<Rightarrow> string) \<Rightarrow> project_tables dict \<Rightarrow> analysis_record dict \<Rightarrow> heap
     \<Rightarrow> (error + analysis_record dict) \<times> heap" where
  "analyze_loop py_str [] analysis h = (Inr analysis, h)"
| "analyze_loop py_str ((project, data) # rest) analysis h =
     (case analyze_project py_str data h of
        (Inl e, h') \<Rightarrow> (Inl e, h')
      | (Inr r, h') \<Rightarrow> analyze_loop py_str rest (AList.update project r analysis) h')"

definition analyze_project_data ::
  "(cell \<Rightarrow> string) \<Rightarrow> project_tables dict \<Rightarrow> heap \<Rightarrow> (error + analysis_record dict) \<times> heap" where
  "analyze_project_data py_str project_data h = analyze_loop py_str project_data [] h"

section \<open>The Metadata Fetcher\<close>

text \<open>
  Python values as they go into the report: cells, lists, and dicts with string keys.
\<close>

datatype pyobj =
    Atom cell
  | PNone
  | PBool bool
  | PList "pyobj list"
  | PDict "(string \<times> pyobj) list"

text \<open>
  A response has a status code and a body; \<open>response.json()\<close> returns the decoded body or
  raises when the body is not JSON.
\<close>

record response =
  status_code :: int
  json_body :: "error + pyobj"

text \<open>
  What the program does to the outside, in the order it does it: the requests it sends
  and the files it writes.
\<close>

record figure =
  lines :: "(string \<times> series \<times> series) list"
  title :: string
  xlabel :: string
  ylabel :: string
  legend :: bool
  grid :: bool

datatype event =
    HttpGet string
  | SaveFig string figure
  | OpenW string
  | JsonDump string pyobj

text \<open>
  What the program gets from outside: the remote service (\<open>requests.get\<close> returns a
  response or raises on a transport failure), Python's string form of a cell, the
  library's date parser for the format \<open>%d-%m-%Y\<close>, and whether a path can be written.
\<close>

record env =
  env_get :: "string \<Rightarrow> error + response"
  env_str :: "cell \<Rightarrow> string"
  env_strptime :: "string \<Rightarrow> (nat \<times> nat \<times> nat) option"
  env_writable :: "string \<Rightarrow> bool"

definition project_url :: "string \<Rightarrow> string" where
  "project_url project = ''https://api.github.com/repos/google/oss-fuzz/contents/projects/'' @ project"

definition not_found :: pyobj where
  "not_found = PDict [(''error'', Atom (Str ''Project not found''))]"

fun fetch_metadata_loop ::
  "(string \<Rightarrow> error + response) \<Rightarrow> string list \<Rightarrow> pyobj dict \<Rightarrow> event list
     \<Rightarrow> (error + pyobj dict) \<times> event list" where
  "fetch_metadata_loop get [] metadata t = (Inr metadata, t)"
| "fetch_metadata_loop get (project # rest) metadata t =
     (let url = project_url project;
          t1 = t @ [HttpGet url]
      in case get url of
           Inl e \<Rightarrow> (Inl e, t1)
         | Inr response \<Rightarrow>
             if status_code response = 200 then
               (case json_body response of
                  Inl e \<Rightarrow> (Inl e, t1)
                | Inr body \<Rightarrow>
                    fetch_metadata_loop get rest (AList.update project body metadata) t1)
             else fetch_metadata_loop get rest (AList.update project not_found metadata) t1)"

definition fetch_project_metadata ::
  "(string \<Rightarrow> error + response) \<Rightarrow> string list \<Rightarrow> event list
     \<Rightarrow> (error + pyobj dict) \<times> event list" where
  "fetch_project_metadata get project_names t = fetch_metadata_loop get project_names [] t"

section \<open>The Trend Renderer\<close>

text \<open>\<open>pd.to_datetime(col, format="%d-%m-%Y")\<close>: a string that the parser rejects, or a
  number, raises ValueError; a missing value stays missing.\<close>

definition datetime_cell :: "(string \<Rightarrow> (nat \<times> nat \<times> nat) option) \<Rightarrow> cell \<Rightarrow> cell option" where
  "datetime_cell parse c =
     (case c of
        Str s \<Rightarrow> (case parse s of Some (y, m, d) \<Rightarrow> Some (Timestamp y m d) | None \<Rightarrow> None)
      | NaN \<Rightarrow> Some NaN
      | Timestamp y m d \<Rightarrow> Some (Timestamp y m d)
      | _ \<Rightarrow> None)"

definition to_datetime :: "(string \<Rightarrow> (nat \<times> nat \<times> nat) option) \<Rightarrow> series \<Rightarrow> error + series" where
  "to_datetime parse xs =
     (if list_all (\<lambda>c. datetime_cell parse c \<noteq> None) xs
      then Inr (map (\<lambda>c. the (datetime_cell parse c)) xs)
      else Inl ValueError)"

text \<open>\<open>df.sort_values(name)\<close> returns a new table, its rows in ascending order of the
  column, missing values last, rows of equal key in their old order.\<close>

definition sort_key_of :: "cell \<Rightarrow> bool \<times> nat \<times> nat \<times> nat" where
  "sort_key_of c = (case c of Timestamp y m d \<Rightarrow> (False, y, m, d) | _ \<Rightarrow> (True, 0, 0, 0))"

definition sort_values :: "dataframe \<Rightarrow> string \<Rightarrow> error + dataframe" where
  "sort_values df name =
     (case getcol df name of
        Inl e \<Rightarrow> Inl e
      | Inr col \<Rightarrow>
          (let order = sort_key (\<lambda>i. sort_key_of (cell_at col i)) [0..<nrows df]
           in Inr (map (\<lambda>(n, c). (n, map (cell_at c) order)) df)))"

text \<open>
  One round of the plotting loop. \<open>.copy()\<close> makes a new object in the store, and the
  assignment to its date column writes to that object; \<open>sort_values\<close> makes another.
\<close>

definition plot_project ::
  "(string \<Rightarrow> (nat \<times> nat \<times> nat) option) \<Rightarrow> project_tables dict \<Rightarrow> string \<Rightarrow> heap
     \<Rightarrow> (error + string \<times> series \<times> series) \<times> heap" where
  "plot_project parse project_data project h =
     (case map_of project_data project of None \<Rightarrow> (Inl (KeyError project), h) | Some data \<Rightarrow>
      case deref h (coverage data) of Inl e \<Rightarrow> (Inl e, h) | Inr stored \<Rightarrow>
        (let (df, h1) = new h stored
         in case getcol (h1 ! df) ''date'' of Inl e \<Rightarrow> (Inl e, h1) | Inr dates \<Rightarrow>
            case to_datetime parse dates of Inl e \<Rightarrow> (Inl e, h1) | Inr parsed \<Rightarrow>
              (let h2 = h1[df := setcol (h1 ! df) ''date'' parsed]
               in case sort_values (h2 ! df) ''date'' of Inl e \<Rightarrow> (Inl e, h2) | Inr sorted_df \<Rightarrow>
                    (let (df', h3) = new h2 sorted_df
                     in case getcol (h3 ! df') ''date'' of Inl e \<Rightarrow> (Inl e, h3) | Inr xs \<Rightarrow>
                        case getcol (h3 ! df') ''coverage'' of Inl e \<Rightarrow> (Inl e, h3) | Inr ys \<Rightarrow>
                          (Inr (project, xs, ys), h3)))))"

fun plot_loop ::
  "(string \<Rightarrow> (nat \<times> nat \<times> nat) option) \<Rightarrow> project_tables dict \<Rightarrow> string list
     \<Rightarrow> (string \<times> series \<times> series) list \<Rightarrow> heap
     \<Rightarrow> (error + (string \<times> series \<times> series) list) \<times> heap" where
  "plot_loop parse project_data [] drawn h = (Inr drawn, h)"
| "plot_loop parse project_data (project # rest) drawn h =
     (case plot_project parse project_data project h of
        (Inl e, h') \<Rightarrow> (Inl e, h')
      | (Inr line, h') \<Rightarrow> plot_loop parse project_data rest (drawn @ [line]) h')"

definition chart_path :: string where
  "chart_path = ''../../outputs/coverage_trends.png''"

definition plot_coverage_trends ::
  "env \<Rightarrow> project_tables dict \<Rightarrow> string list \<Rightarrow> heap \<Rightarrow> event list
     \<Rightarrow> (error + unit) \<times> heap \<times> event list" where
  "plot_coverage_trends e project_data project_names h t =
     (case plot_loop (env_strptime e) project_data project_names [] h of
        (Inl err, h') \<Rightarrow> (Inl err, h', t)
      | (Inr drawn, h') \<Rightarrow>
          if env_writable e chart_path
          then (Inr (), h',
                t @ [SaveFig chart_path
                       \<lparr>lines = drawn, title = ''Coverage Trends Across Projects'',
                        xlabel = ''Date'', ylabel = ''Coverage (%)'', legend = True, grid = True\<rparr>])
          else (Inl OSError, h', t))"

section \<open>The Report Writer and the Orchestrator\<close>

definition records_obj :: "cell dict list \<Rightarrow> pyobj" where
  "records_obj rows = PList (map (\<lambda>row. PDict (map (\<lambda>(k, v). (k, Atom v)) row)) rows)"

definition analysis_obj :: "analysis_record dict \<Rightarrow> pyobj" where
  "analysis_obj analysis =
     PDict (map (\<lambda>(project, r).
              (project, PDict [(''unique_crashes'', Atom (Num (real_of_int (unique_crashes r)))),
                               (''avg_coverage'', Atom (avg_coverage r)),
                               (''coverage_trend'', records_obj (coverage_trend r))])) analysis)"

text \<open>The loop of \<open>main\<close> that builds \<open>raw_data\<close> from copies of the stored tables.\<close>

fun raw_data_loop ::
  "project_tables dict \<Rightarrow> pyobj dict \<Rightarrow> heap \<Rightarrow> (error + pyobj dict) \<times> heap" where
  "raw_data_loop [] raw_data h = (Inr raw_data, h)"
| "raw_data_loop ((p, d) # rest) raw_data h =
     (case deref h (crashes d) of Inl e \<Rightarrow> (Inl e, h) | Inr stored_crashes \<Rightarrow>
        (let (crashes_df, h1) = new h stored_crashes
         in case deref h1 (coverage d) of Inl e \<Rightarrow> (Inl e, h1) | Inr stored_coverage \<Rightarrow>
              (let (coverage_df, h2) = new h1 stored_coverage
               in raw_data_loop rest
                    (AList.update p
                       (PDict [(''crashes'', records_obj (to_dict (h2 ! crashes_df))),
                               (''coverage'', records_obj (to_dict (h2 ! coverage_df)))])
                       raw_data) h2)))"

text \<open>\<open>json.dump\<close> writes NaN and the infinities, and raises TypeError on a date.\<close>

fun serializable :: "pyobj \<Rightarrow> bool" where
  "serializable (Atom (Timestamp _ _ _)) = False"
| "serializable (Atom _) = True"
| "serializable PNone = True"
| "serializable (PBool _) = True"
| "serializable (PList xs) = list_all serializable xs"
| "serializable (PDict kvs) = list_all (\<lambda>kv. serializable (snd kv)) kvs"

definition report_path :: string where
  "report_path = ''../../outputs/oss_fuzz_analysis.json''"

record world =
  heap :: heap
  trace :: "event list"

definition main :: "env \<Rightarrow> string list \<Rightarrow> world \<Rightarrow> (error + unit) \<times> world" where
  "main e project_names w =
     (case fetch_project_metadata (env_get e) project_names (trace w) of
        (Inl err, t1) \<Rightarrow> (Inl err, \<lparr>heap = heap w, trace = t1\<rparr>)
      | (Inr metadata, t1) \<Rightarrow>
     (case fetch_project_data project_names (heap w) of
        (Inl err, h1) \<Rightarrow> (Inl err, \<lparr>heap = h1, trace = t1\<rparr>)
      | (Inr project_data, h1) \<Rightarrow>
     (case analyze_project_data (env_str e) project_data h1 of
        (Inl err, h2) \<Rightarrow> (Inl err, \<lparr>heap = h2, trace = t1\<rparr>)
      | (Inr analysis, h2) \<Rightarrow>
     (case plot_coverage_trends e project_data project_names h2 t1 of
        (Inl err, h3, t2) \<Rightarrow> (Inl err, \<lparr>heap = h3, trace = t2\<rparr>)
      | (Inr _, h3, t2) \<Rightarrow>
     (case raw_data_loop project_data [] h3 of
        (Inl err, h4) \<Rightarrow> (Inl err, \<lparr>heap = h4, trace = t2\<rparr>)
      | (Inr raw_data, h4) \<Rightarrow>
        (let results = PDict [(''metadata'', PDict metadata),
                              (''analysis'', analysis_obj analysis),
                              (''raw_data'', PDict raw_data)]
         in if \<not> env_writable e report_path then (Inl OSError, \<lparr>heap = h4, trace = t2\<rparr>)
            else if serializable results
            then (Inr (), \<lparr>heap = h4, trace = t2 @ [OpenW report_path, JsonDump report_path results]\<rparr>)
            else (Inl TypeError, \<lparr>heap = h4, trace = t2 @ [OpenW report_path]\<rparr>)))))))"

section \<open>The fixed dataset, column by column\<close>

definition coverage_dates :: "string list" where
  "coverage_dates = [''15-01-2025'', ''28-01-2025'', ''31-01-2025'', ''10-02-2025'', ''20-02-2025'',
      ''25-02-2025'', ''06-03-2025'', ''06-03-2025'', ''15-03-2025'']"

definition coverage_offsets :: "real list" where
  "coverage_offsets = [0, 3, 5, 7, 10, 12, 15, 17, 20]"

definition crash_hashes :: "string list" where
  "crash_hashes = [''mno345'', ''pqr678'', ''jkl012'', ''stu901'', ''vwx234'', ''ghi789'', ''def456'', ''abc123'', ''abc123'']"

definition provided_tables :: "heap \<Rightarrow> string \<times> project_tables \<Rightarrow> bool" where
  "provided_tables h entry =
     (case coverage_base (fst entry) of
        None \<Rightarrow> False
      | Some b \<Rightarrow> crashes (snd entry) < length h \<and> h ! crashes (snd entry) = DataFrame crash_data
                  \<and> coverage (snd entry) < length h \<and> h ! coverage (snd entry) = DataFrame (coverage_data b)
                  \<and> crashes (snd entry) \<noteq> coverage (snd entry))"


text \<open>An entry of the dict whose tables still hold the columns the analyzer reads, as the
  Data Provider made them.\<close>

definition ready :: "heap \<Rightarrow> string \<times> project_tables \<Rightarrow> bool" where
  "ready h entry =
     (case coverage_base (fst entry) of
        None \<Rightarrow> False
      | Some b \<Rightarrow>
          crashes (snd entry) < length h
          \<and> getcol (h ! crashes (snd entry)) ''crash_hash'' = Inr (map Str crash_hashes)
          \<and> coverage (snd entry) < length h
          \<and> getcol (h ! coverage (snd entry)) ''coverage''
                = Inr (map (\<lambda>off. Num (b + off)) coverage_offsets)
          \<and> getcol (h ! coverage (snd entry)) ''date'' = Inr (map Str coverage_dates))"

section \<open>Notions used to reason about the Analyzer\<close>

text \<open>
  What one round of the analyzer's loop computes from the coverage table it is given: the
  mean, and the table as the round leaves it in the store.
\<close>

definition augment :: "(cell \<Rightarrow> string) \<Rightarrow> dataframe \<Rightarrow> error + cell \<times> dataframe" where
  "augment py_str df =
     (case getcol df ''coverage'' of Inl e \<Rightarrow> Inl e | Inr cov \<Rightarrow>
      case mean cov of Inl e \<Rightarrow> Inl e | Inr avg \<Rightarrow>
      case pct_change cov of Inl e \<Rightarrow> Inl e | Inr pct \<Rightarrow>
      case getcol (setcol df ''growth_rate'' (series_mul pct (Num 100))) ''date'' of
        Inl e \<Rightarrow> Inl e
      | Inr dates \<Rightarrow>
          Inr (avg, setcol (setcol df ''growth_rate'' (series_mul pct (Num 100))) ''date''
                      (astype_str py_str dates)))"

text \<open>A round is settled in a store when it returns its record and leaves the store as it is.\<close>

definition settled :: "(cell \<Rightarrow> string) \<Rightarrow> heap \<Rightarrow> project_tables \<Rightarrow> analysis_record \<Rightarrow> bool" where
  "settled py_str h data r = (analyze_project py_str data h = (Inr r, h))"


section \<open>A run on one project, with the remote service mocked\<close>

text \<open>The dict and the coverage table that the Data Provider builds for zlib alone in an
  empty store, and the growth rates of that table.\<close>

definition zlib_data :: "project_tables dict" where
  "zlib_data = [(''zlib'', \<lparr>crashes = 0, coverage = 1\<rparr>)]"

definition zlib_coverage :: dataframe where
  "zlib_coverage = [(''date'', map Str coverage_dates),
                    (''coverage'', map Num [70, 73, 75, 77, 80, 82, 85, 87, 90])]"

definition zlib_growth :: series where
  "zlib_growth = [NaN, Num (30 / 7), Num (200 / 73), Num (8 / 3), Num (300 / 77),
      Num (5 / 2), Num (150 / 41), Num (40 / 17), Num (100 / 29)]"


text \<open>The store after the Data Provider, the coverage table as the analyzer leaves it,
  and the analysis.\<close>

definition zlib_heap :: heap where
  "zlib_heap = [DataFrame crash_data, zlib_coverage]"

definition zlib_analyzed :: dataframe where
  "zlib_analyzed = zlib_coverage @ [(''growth_rate'', zlib_growth)]"

definition zlib_analysis :: "analysis_record dict" where
  "zlib_analysis =
     [(''zlib'', \<lparr>unique_crashes = 8, avg_coverage = Num (719 / 9),
                  coverage_trend = to_dict zlib_analyzed\<rparr>)]"

text \<open>
  An environment as the tests mock it: every request is answered 404, and every path can
  be written. Its date parser reads two digits, a dash, two digits, a dash and four digits.
\<close>

definition digit_value :: "char \<Rightarrow> nat option" where
  "digit_value c = (let n = of_char c :: nat in if 48 \<le> n \<and> n \<le> 57 then Some (n - 48) else None)"

definition two_digits :: "char \<Rightarrow> char \<Rightarrow> nat option" where
  "two_digits a b =
     (case (digit_value a, digit_value b) of (Some x, Some y) \<Rightarrow> Some (10 * x + y) | _ \<Rightarrow> None)"

definition strptime_dmy :: "string \<Rightarrow> (nat \<times> nat \<times> nat) option" where
  "strptime_dmy s =
     (if length s = 10 \<and> s ! 2 = CHR ''-'' \<and> s ! 5 = CHR ''-'' then
        (case (two_digits (s ! 0) (s ! 1), two_digits (s ! 3) (s ! 4),
               two_digits (s ! 6) (s ! 7), two_digits (s ! 8) (s ! 9)) of
           (Some d, Some m, Some c, Some y) \<Rightarrow>
             if 1 \<le> d \<and> d \<le> 31 \<and> 1 \<le> m \<and> m \<le> 12 then Some (100 * c + y, m, d) else None
         | _ \<Rightarrow> None)
      else None)"

definition mock_env :: env where
  "mock_env = \<lparr>env_get = (\<lambda>url. Inr \<lparr>status_code = 404, json_body = Inl JSONDecodeError\<rparr>),
               env_str = (\<lambda>c. ''nan''),
               env_strptime = strptime_dmy,
               env_writable = (\<lambda>path. True)\<rparr>"

text \<open>What the run of \<open>main\<close> on zlib alone plots and writes in that environment.\<close>

definition zlib_timestamps :: series where
  "zlib_timestamps = [Timestamp 2025 1 15, Timestamp 2025 1 28, Timestamp 2025 1 31,
      Timestamp 2025 2 10, Timestamp 2025 2 20, Timestamp 2025 2 25, Timestamp 2025 3 6,
      Timestamp 2025 3 6, Timestamp 2025 3 15]"

definition zlib_plotted :: dataframe where
  "zlib_plotted = [(''date'', zlib_timestamps),
                   (''coverage'', map Num [70, 73, 75, 77, 80, 82, 85, 87, 90]),
                   (''growth_rate'', zlib_growth)]"

definition zlib_figure :: figure where
  "zlib_figure = \<lparr>lines = [(''zlib'', zlib_timestamps, map Num [70, 73, 75, 77, 80, 82, 85, 87, 90])],
                   title = ''Coverage Trends Across Projects'', xlabel = ''Date'',
                   ylabel = ''Coverage (%)'', legend = True, grid = True\<rparr>"

definition zlib_report :: pyobj where
  "zlib_report =
     PDict [(''metadata'', PDict [(''zlib'', not_found)]),
            (''analysis'', analysis_obj zlib_analysis),
            (''raw_data'',
               PDict [(''zlib'', PDict [(''crashes'', records_obj (to_dict (DataFrame crash_data))),
                                        (''coverage'', records_obj (to_dict zlib_analyzed))])])]"


section \<open>Notions used to reason about the Metadata Fetcher\<close>

text \<open>The record that one request yields for a project, when it yields one: none on a
  transport failure, and none when a 200 response has a body that does not decode.\<close>

definition metadata_for :: "(string \<Rightarrow> error + response) \<Rightarrow> string \<Rightarrow> pyobj option" where
  "metadata_for get p =
     (case get (project_url p) of
        Inl e \<Rightarrow> None
      | Inr resp \<Rightarrow>
          if status_code resp = 200
          then (case json_body resp of Inl e \<Rightarrow> None | Inr body \<Rightarrow> Some body)
          else Some not_found)"

text \<open>A service that knows zlib and nothing else.\<close>

definition zlib_descriptor :: pyobj where
  "zlib_descriptor = PDict [(''name'', Atom (Str ''zlib'')), (''path'', Atom (Str ''projects/zlib''))]"

definition only_zlib :: "string \<Rightarrow> error + response" where
  "only_zlib url = (if url = project_url ''zlib''
                    then Inr \<lparr>status_code = 200, json_body = Inr zlib_descriptor\<rparr>
                    else Inr \<lparr>status_code = 404, json_body = Inl JSONDecodeError\<rparr>)"


section \<open>Properties of the Data Provider\<close>

lemma DataFrame_coverage_data:
  "DataFrame (coverage_data b) =
     [(''date'', map Str coverage_dates), (''coverage'', map (\<lambda>off. Num (b + off)) coverage_offsets)]"
  by (simp add: DataFrame_def coverage_data_def first_seen_def coverage_dates_def coverage_offsets_def)

lemma DataFrame_crash_data:
  "map_of (DataFrame crash_data) ''crash_hash'' = Some (map Str crash_hashes)"
  by (simp add: DataFrame_def crash_data_def first_seen_def crash_hashes_def)

lemma provided_tables_append:
  "provided_tables h entry \<Longrightarrow> provided_tables (h @ ext) entry"
  by (auto simp: provided_tables_def nth_append split: option.splits)

lemma set_update_cases:
  "x \<in> set (AList.update k v al) \<Longrightarrow> x = (k, v) \<or> x \<in> set al"
  by (induction al) (auto split: if_splits)

lemma fetch_data_loop_provided:
  assumes "set names \<subseteq> dom coverage_base" and "list_all (provided_tables h) pd"
  shows "\<exists>pd' ext. fetch_data_loop names pd h = (Inr pd', h @ ext)
            \<and> list_all (provided_tables (h @ ext)) pd'
            \<and> fst ` set pd' = fst ` set pd \<union> set names"
  using assms
proof (induction names arbitrary: pd h)
  case Nil
  then show ?case by (intro exI[of _ pd] exI[of _ "[]"]) simp
next
  case (Cons p names)
  from Cons.prems(1) obtain b where b: "coverage_base p = Some b" by auto
  let ?h2 = "h @ [DataFrame crash_data, DataFrame (coverage_data b)]"
  let ?pd = "AList.update p \<lparr>crashes = length h, coverage = Suc (length h)\<rparr> pd"
  have step: "fetch_data_loop (p # names) pd h = fetch_data_loop names ?pd ?h2"
    by (simp add: b new_def)
  have new_ok: "provided_tables ?h2 (p, \<lparr>crashes = length h, coverage = Suc (length h)\<rparr>)"
    by (simp add: provided_tables_def b nth_append)
  have all_ok: "list_all (provided_tables ?h2) ?pd"
    unfolding list_all_iff
  proof
    fix x assume "x \<in> set ?pd"
    then consider "x = (p, \<lparr>crashes = length h, coverage = Suc (length h)\<rparr>)" | "x \<in> set pd"
      using set_update_cases by fastforce
    then show "provided_tables ?h2 x"
    proof cases
      case 1 then show ?thesis using new_ok by simp
    next
      case 2 then show ?thesis using Cons.prems(2) provided_tables_append by (auto simp: list_all_iff)
    qed
  qed
  have known: "set names \<subseteq> dom coverage_base" using Cons.prems(1) by simp
  obtain pd' ext where r: "fetch_data_loop names ?pd ?h2 = (Inr pd', ?h2 @ ext)"
      "list_all (provided_tables (?h2 @ ext)) pd'" "fst ` set pd' = fst ` set ?pd \<union> set names"
    using Cons.IH[OF known all_ok] by blast
  show ?case
    apply (rule exI[of _ pd'])
    apply (rule exI[of _ "[DataFrame crash_data, DataFrame (coverage_data b)] @ ext"])
    using r step by (auto simp: dom_update)
qed

text \<open>
  Claim C7. When every requested project has a baseline, \<open>fetch_project_data\<close> returns,
  and for each requested project with baseline \<open>b\<close> the stored coverage table has the two
  columns date and coverage and nine rows, the coverage values being \<open>b\<close> plus the offsets
  0, 3, 5, 7, 10, 12, 15, 17, 20 in this order; for zlib they are 70, 73, 75, 77, 80, 82, 85,
  87, 90.
\<close>

theorem fetch_project_data_coverage:
  assumes "set project_names \<subseteq> dom coverage_base"
  shows "\<exists>project_data h'. fetch_project_data project_names h = (Inr project_data, h')
     \<and> (\<forall>p\<in>set project_names. \<exists>data b. map_of project_data p = Some data \<and> coverage_base p = Some b
           \<and> coverage data < length h'
           \<and> h' ! coverage data =
               [(''date'', map Str coverage_dates),
                (''coverage'', map (\<lambda>off. Num (b + off)) [0, 3, 5, 7, 10, 12, 15, 17, 20])]
           \<and> (p = ''zlib'' \<longrightarrow> getcol (h' ! coverage data) ''coverage''
                  = Inr (map Num [70, 73, 75, 77, 80, 82, 85, 87, 90])))"
proof -
  obtain pd' ext where r: "fetch_data_loop project_names [] h = (Inr pd', h @ ext)"
      "list_all (provided_tables (h @ ext)) pd'" "fst ` set pd' = set project_names"
    using fetch_data_loop_provided[OF assms, of h "[]"] by auto
  have "\<exists>data b. map_of pd' p = Some data \<and> coverage_base p = Some b
           \<and> coverage data < length (h @ ext)
           \<and> (h @ ext) ! coverage data =
               [(''date'', map Str coverage_dates),
                (''coverage'', map (\<lambda>off. Num (b + off)) [0, 3, 5, 7, 10, 12, 15, 17, 20])]
           \<and> (p = ''zlib'' \<longrightarrow> getcol ((h @ ext) ! coverage data) ''coverage''
                  = Inr (map Num [70, 73, 75, 77, 80, 82, 85, 87, 90]))" if "p \<in> set project_names" for p
  proof -
    from that r(3) obtain data where m: "map_of pd' p = Some data"
      by (metis (no_types, opaque_lifting) domD dom_map_of_conv_image_fst)
    then have "(p, data) \<in> set pd'" by (rule map_of_SomeD)
    with r(2) have "provided_tables (h @ ext) (p, data)" by (auto simp: list_all_iff)
    then obtain b where b: "coverage_base p = Some b" "coverage data < length (h @ ext)"
        "(h @ ext) ! coverage data = DataFrame (coverage_data b)"
      by (auto simp: provided_tables_def split: option.splits)
    have "p = ''zlib'' \<Longrightarrow> b = 70" using b(1) by (simp add: coverage_base_def)
    then show ?thesis using m b
      by (auto simp: DataFrame_coverage_data coverage_offsets_def getcol_def)
  qed
  then show ?thesis using r(1) unfolding fetch_project_data_def by blast
qed

lemma fetch_data_loop_unknown:
  "p \<in> set names \<Longrightarrow> coverage_base p = None \<Longrightarrow>
     \<exists>q h'. fetch_data_loop names pd h = (Inl (KeyError q), h') \<and> q \<in> set names \<and> coverage_base q = None"
proof (induction names arbitrary: pd h)
  case Nil then show ?case by simp
next
  case (Cons x names)
  show ?case
  proof (cases "coverage_base x")
    case None then show ?thesis by auto
  next
    case (Some b)
    with Cons.prems have "p \<in> set names" by auto
    from Cons.IH[OF this Cons.prems(2)] show ?thesis using Some
      by (simp add: new_def) blast
  qed
qed

text \<open>
  Claim C3. A request that names a project without a baseline makes \<open>fetch_project_data\<close>
  raise KeyError carrying an unlisted project identifier of the request; no table is
  returned and no default baseline is used. Asked for that project alone, the error carries
  its identifier and the store is untouched.
\<close>

theorem fetch_project_data_unknown_project:
  assumes "p \<in> set project_names" and "coverage_base p = None"
  shows "(\<exists>q h'. fetch_project_data project_names h = (Inl (KeyError q), h')
            \<and> q \<in> set project_names \<and> coverage_base q = None)
         \<and> fetch_project_data [p] h = (Inl (KeyError p), h)"
  using fetch_data_loop_unknown[OF assms, of "[]" h] assms(2)
  by (simp add: fetch_project_data_def)

theorem fetch_project_data_coverage_witness:
  "set [''zlib''] \<subseteq> dom coverage_base \<and> 
   (\<exists>project_data h'. fetch_project_data [''zlib''] [] = (Inr project_data, h')
     \<and> (\<exists>data. map_of project_data ''zlib'' = Some data
           \<and> getcol (h' ! coverage data) ''coverage''
                  = Inr (map Num [70, 73, 75, 77, 80, 82, 85, 87, 90])))"
proof -
  have h: "set [''zlib''] \<subseteq> dom coverage_base" by (simp add: coverage_base_def)
  show ?thesis using h fetch_project_data_coverage[OF h, of "[]"] by fastforce
qed

theorem fetch_project_data_unknown_project_witness:
  "''foo'' \<in> set [''zlib'', ''foo''] \<and> coverage_base ''foo'' = None
   \<and> fetch_project_data [''foo''] [] = (Inl (KeyError ''foo''), [])"
proof -
  have a: "''foo'' \<in> set [''zlib'', ''foo'']" by simp
  have b: "coverage_base ''foo'' = None" by (simp add: coverage_base_def)
  show ?thesis using a b fetch_project_data_unknown_project[OF a b, of "[]"] by simp
qed


section \<open>Properties of the Analyzer\<close>

subsection \<open>The second call\<close>

lemma analyze_project_Inr:
  "analyze_project py_str data h = (Inr r, h') \<longleftrightarrow>
     (\<exists>hashes avg df2. crashes data < length h \<and> coverage data < length h
        \<and> getcol (h ! crashes data) ''crash_hash'' = Inr hashes
        \<and> augment py_str (h ! coverage data) = Inr (avg, df2)
        \<and> h' = h[coverage data := df2]
        \<and> r = \<lparr>unique_crashes = int (nunique hashes), avg_coverage = avg,
                 coverage_trend = to_dict df2\<rparr>)"
  by (auto simp: analyze_project_def augment_def deref_def Let_def split: sum.splits)

lemma astype_str_idem: "astype_str f (astype_str f xs) = astype_str f xs"
  by (induction xs) (auto simp: astype_str_def split: cell.splits)

lemma getcol_setcol: "getcol (setcol df k v) k' = (if k' = k then Inr v else getcol df k')"
  by (simp add: getcol_def setcol_def update_conv')

lemma setcol_triv: "getcol df k = Inr v \<Longrightarrow> setcol df k v = df"
  by (auto simp: getcol_def setcol_def split: option.splits intro: update_triv)

lemma augment_other_columns:
  assumes "augment py_str df = Inr (avg, df2)" and "name \<noteq> ''growth_rate''" and "name \<noteq> ''date''"
  shows "getcol df2 name = getcol df name"
  using assms by (auto simp: augment_def getcol_setcol split: sum.splits)

lemma augment_idem:
  assumes "augment py_str df = Inr (avg, df2)"
  shows "augment py_str df2 = Inr (avg, df2)"
proof -
  from assms obtain cov pct dates where
    cov: "getcol df ''coverage'' = Inr cov" and avg: "mean cov = Inr avg"
    and pct: "pct_change cov = Inr pct"
    and dates: "getcol (setcol df ''growth_rate'' (series_mul pct (Num 100))) ''date'' = Inr dates"
    and df2: "df2 = setcol (setcol df ''growth_rate'' (series_mul pct (Num 100))) ''date''
                      (astype_str py_str dates)"
    by (auto simp: augment_def split: sum.splits)
  have c2: "getcol df2 ''coverage'' = Inr cov"
    using cov by (simp add: df2 getcol_setcol)
  have g2: "getcol df2 ''growth_rate'' = Inr (series_mul pct (Num 100))"
    by (simp add: df2 getcol_setcol)
  have s1: "setcol df2 ''growth_rate'' (series_mul pct (Num 100)) = df2"
    using g2 by (rule setcol_triv)
  have d2: "getcol df2 ''date'' = Inr (astype_str py_str dates)"
    by (simp add: df2 getcol_setcol)
  have s2: "setcol df2 ''date'' (astype_str py_str (astype_str py_str dates)) = df2"
    using d2 by (simp add: astype_str_idem setcol_triv)
  show ?thesis
    by (simp add: augment_def c2 avg pct s1 d2 s2)
qed

lemma analyze_project_settles:
  assumes "analyze_project py_str data h = (Inr r, h')"
  shows "settled py_str h' data r"
proof -
  from assms obtain hashes avg df2 where
    c: "crashes data < length h" and a: "coverage data < length h"
    and hs: "getcol (h ! crashes data) ''crash_hash'' = Inr hashes"
    and au: "augment py_str (h ! coverage data) = Inr (avg, df2)"
    and h': "h' = h[coverage data := df2]"
    and r: "r = \<lparr>unique_crashes = int (nunique hashes), avg_coverage = avg,
                 coverage_trend = to_dict df2\<rparr>"
    unfolding analyze_project_Inr by blast
  have "getcol (h' ! crashes data) ''crash_hash'' = Inr hashes"
    using hs c a augment_other_columns[OF au, of "''crash_hash''"]
    by (cases "crashes data = coverage data") (simp_all add: h')
  moreover have "augment py_str (h' ! coverage data) = Inr (avg, df2)"
    using a augment_idem[OF au] by (simp add: h')
  moreover have "h' = h'[coverage data := df2]"
    by (simp add: h')
  ultimately show ?thesis
    unfolding settled_def analyze_project_Inr using c a r by (auto simp: h')
qed

lemma settled_preserved:
  assumes s: "settled py_str h d r" and step: "analyze_project py_str d2 h = (Inr r2, h')"
  shows "settled py_str h' d r"
proof -
  from s obtain hashes avg df2 where
    c: "crashes d < length h" and a: "coverage d < length h"
    and hs: "getcol (h ! crashes d) ''crash_hash'' = Inr hashes"
    and au: "augment py_str (h ! coverage d) = Inr (avg, df2)"
    and fixed: "h = h[coverage d := df2]"
    and r: "r = \<lparr>unique_crashes = int (nunique hashes), avg_coverage = avg,
                 coverage_trend = to_dict df2\<rparr>"
    unfolding settled_def analyze_project_Inr by blast
  from fixed a have same: "h ! coverage d = df2"
    by (metis nth_list_update_eq)
  from step obtain avg' df2' where
    a2: "coverage d2 < length h"
    and au2: "augment py_str (h ! coverage d2) = Inr (avg', df2')"
    and h': "h' = h[coverage d2 := df2']"
    unfolding analyze_project_Inr by blast
  have "getcol (h' ! crashes d) ''crash_hash'' = Inr hashes"
    using hs c a2 augment_other_columns[OF au2, of "''crash_hash''"]
    by (cases "crashes d = coverage d2") (simp_all add: h')
  moreover have at_a: "h' ! coverage d = df2"
  proof (cases "coverage d = coverage d2")
    case True
    with au au2 have "df2' = df2" by simp
    then show ?thesis using a True by (simp add: h')
  next
    case False
    then show ?thesis using same by (simp add: h')
  qed
  moreover have "augment py_str df2 = Inr (avg, df2)"
    using augment_idem[OF au] .
  moreover have "h' = h'[coverage d := df2]"
    using at_a by (metis list_update_id)
  ultimately show ?thesis
    unfolding settled_def analyze_project_Inr using c a r by (auto simp: h')
qed

lemma analyze_loop_keeps_settled:
  "analyze_loop py_str pd acc h = (Inr A, h') \<Longrightarrow> settled py_str h d r \<Longrightarrow> settled py_str h' d r"
proof (induction pd arbitrary: acc h)
  case Nil
  then show ?case by simp
next
  case (Cons e pd)
  obtain p d2 where e: "e = (p, d2)" by (cases e)
  from Cons.prems(1) obtain r2 h1 where step: "analyze_project py_str d2 h = (Inr r2, h1)"
    and rest: "analyze_loop py_str pd (AList.update p r2 acc) h1 = (Inr A, h')"
    by (auto simp: e split: prod.splits sum.splits)
  from settled_preserved[OF Cons.prems(2) step] Cons.IH[OF rest] show ?case by blast
qed

lemma analyze_loop_results:
  "analyze_loop py_str pd acc h = (Inr A, h') \<Longrightarrow>
     \<exists>rs. list_all2 (\<lambda>e r. settled py_str h' (snd e) r) pd rs
        \<and> A = fold (\<lambda>(e, r). AList.update (fst e) r) (zip pd rs) acc"
proof (induction pd arbitrary: acc h)
  case Nil
  then show ?case by simp
next
  case (Cons e pd)
  obtain p d where e: "e = (p, d)" by (cases e)
  from Cons.prems obtain r h1 where step: "analyze_project py_str d h = (Inr r, h1)"
    and rest: "analyze_loop py_str pd (AList.update p r acc) h1 = (Inr A, h')"
    by (auto simp: e split: prod.splits sum.splits)
  from Cons.IH[OF rest] obtain rs where
    rs: "list_all2 (\<lambda>e r. settled py_str h' (snd e) r) pd rs"
        "A = fold (\<lambda>(e, r). AList.update (fst e) r) (zip pd rs) (AList.update p r acc)"
    by blast
  have "settled py_str h' d r"
    using analyze_loop_keeps_settled[OF rest analyze_project_settles[OF step]] .
  with rs show ?case
    by (intro exI[of _ "r # rs"]) (simp add: e)
qed

lemma analyze_loop_settled:
  "list_all2 (\<lambda>e r. settled py_str h (snd e) r) pd rs \<Longrightarrow>
     analyze_loop py_str pd acc h = (Inr (fold (\<lambda>(e, r). AList.update (fst e) r) (zip pd rs) acc), h)"
proof (induction pd rs arbitrary: acc rule: list_all2_induct)
  case Nil
  then show ?case by simp
next
  case (Cons e pd r rs)
  obtain p d where e: "e = (p, d)" by (cases e)
  from Cons.hyps(1) have "analyze_project py_str d h = (Inr r, h)"
    by (simp add: settled_def e)
  then show ?case using Cons.IH by (simp add: e)
qed

text \<open>
  Claim C2. When \<open>analyze_project_data\<close> returns an analysis, a second call on the same
  project data, in the store the first call left, returns the same analysis (the same
  unique_crashes, avg_coverage and coverage_trend under every project) and changes nothing
  in the store.
\<close>

theorem analyze_project_data_twice:
  assumes "analyze_project_data py_str project_data h = (Inr analysis, h')"
  shows "analyze_project_data py_str project_data h' = (Inr analysis, h')"
proof -
  from assms obtain rs where
    "list_all2 (\<lambda>e r. settled py_str h' (snd e) r) project_data rs"
    "analysis = fold (\<lambda>(e, r). AList.update (fst e) r) (zip project_data rs) []"
    unfolding analyze_project_data_def using analyze_loop_results by blast
  then show ?thesis
    unfolding analyze_project_data_def using analyze_loop_settled by blast
qed


subsection \<open>The analyzer on the table of zlib\<close>

lemma fetch_zlib:
  "fetch_project_data [''zlib''] [] = (Inr zlib_data, [DataFrame crash_data, zlib_coverage])"
  by (simp add: fetch_project_data_def coverage_base_def new_def zlib_data_def
        DataFrame_coverage_data zlib_coverage_def coverage_offsets_def)

lemma pct_zlib: "pct_change (map Num [70, 73, 75, 77, 80, 82, 85, 87, 90]) = 
   Inr [NaN, Num (3/70), Num (2/73), Num (2/75), Num (3/77), Num (2/80), Num (3/82), Num (2/85), Num (3/87)]"
  by (simp add: pct_change_def series_div_def shift_def series_sub_def fsub_def)

lemma mean_zlib: "mean (map Num [70, 73, 75, 77, 80, 82, 85, 87, 90]) = Inr (Num (719 / 9))"
  by (simp add: mean_def)

lemma augment_zlib:
  "augment f zlib_coverage = Inr (Num (719 / 9), zlib_coverage @ [(''growth_rate'', zlib_growth)])"
  unfolding augment_def zlib_coverage_def getcol_def
  apply (simp add: pct_zlib[simplified] mean_zlib[simplified])
  apply (simp add: setcol_def series_mul_def astype_str_def coverage_dates_def zlib_growth_def)
  done


subsection \<open>Columns of finite numbers\<close>

lemma list_all_is_number_Num: "list_all is_number (map Num cs)"
  by (induction cs) auto







lemma ffill_Num: "ffill p (map Num cs) = map Num cs"
  by (induction cs arbitrary: p) auto

lemma shift_nth:
  "i < length xs \<Longrightarrow> shift xs ! i = (if i = 0 then NaN else xs ! (i - 1))"
  by (cases i) (auto simp: shift_def nth_butlast)

lemma length_shift: "length (shift xs) = length xs"
  by (cases xs) (auto simp: shift_def)

lemma list_all_is_number_shift: "list_all is_number xs \<Longrightarrow> list_all is_number (shift xs)"
  by (auto simp: shift_def list_all_iff dest: in_set_butlastD)

lemma pct_change_Num:
  "pct_change (map Num cs) =
     Inr (map (\<lambda>i. if i = 0 then NaN
                   else fsub (fdiv (Num (cs ! i)) (Num (cs ! (i - 1)))) (Num 1)) [0..<length cs])"
proof -
  let ?xs = "map Num cs"
  have "map2 fdiv ?xs (shift ?xs) =
          map (\<lambda>i. if i = 0 then NaN else fdiv (Num (cs ! i)) (Num (cs ! (i - 1)))) [0..<length cs]"
    by (rule nth_equalityI) (auto simp: length_shift shift_nth)
  then show ?thesis
    by (simp add: pct_change_def ffill_Num series_div_def list_all_is_number_Num
          list_all_is_number_shift series_sub_def fsub_def o_def cong: if_cong)
qed

lemma growth_formula:
  "fmul (fsub (fdiv (Num a) (Num b)) (Num 1)) (Num 100)
     = fmul (fdiv (fsub (Num a) (Num b)) (Num b)) (Num 100)"
  by (auto simp: fsub_def of_sign_def field_simps)

lemma growth_formula_nonzero:
  "b \<noteq> 0 \<Longrightarrow> fmul (fsub (fdiv (Num a) (Num b)) (Num 1)) (Num 100) = Num ((a - b) / b * 100)"
  by (simp add: fsub_def field_simps)

lemma nunique_card: "int (nunique xs) = int (card (set xs - {NaN}))"
proof -
  have "set (filter (\<lambda>x. x \<noteq> NaN) xs) = set xs - {NaN}" by auto
  then show ?thesis
    by (simp add: nunique_def length_remdups_card_conv del: set_filter)
qed

lemma map_of_map_values:
  "map_of (map (\<lambda>(k, v). (k, f v)) al) name = map_option f (map_of al name)"
  by (induction al) auto

lemma to_dict_row:
  "i < nrows df \<Longrightarrow> map_of (to_dict df ! i) name = map_option (\<lambda>col. cell_at col i) (map_of df name)"
  by (simp add: to_dict_def map_of_map_values)


subsection \<open>What a successful call stores under each project\<close>

lemma fold_update_other:
  "k \<notin> fst ` set pd \<Longrightarrow>
     map_of (fold (\<lambda>(e, r). AList.update (fst e) r) (zip pd rs) acc) k = map_of acc k"
proof (induction pd arbitrary: rs acc)
  case Nil
  then show ?case by simp
next
  case (Cons e pd)
  then show ?case by (cases rs) (auto simp: update_conv')
qed

lemma fold_update_entry:
  assumes "list_all2 P pd rs" and "distinct (map fst pd)" and "(p, d) \<in> set pd"
  shows "\<exists>r. map_of (fold (\<lambda>(e, r). AList.update (fst e) r) (zip pd rs) acc) p = Some r \<and> P (p, d) r"
  using assms
proof (induction pd rs arbitrary: acc rule: list_all2_induct)
  case Nil
  then show ?case by simp
next
  case (Cons e pd r rs)
  show ?case
  proof (cases "e = (p, d)")
    case True
    with Cons.prems(1) have "p \<notin> fst ` set pd" by auto
    then show ?thesis using True Cons.hyps(1)
      by (simp add: fold_update_other update_conv')
  next
    case False
    with Cons.prems have "distinct (map fst pd)" "(p, d) \<in> set pd" by auto
    from Cons.IH[OF this] show ?thesis by simp
  qed
qed

lemma analyze_project_data_entry:
  assumes "analyze_project_data py_str project_data h = (Inr analysis, h')"
    and "distinct (map fst project_data)" and "map_of project_data p = Some data"
  shows "\<exists>r. map_of analysis p = Some r \<and> settled py_str h' data r"
proof -
  from assms(1) obtain rs where
    rs: "list_all2 (\<lambda>e r. settled py_str h' (snd e) r) project_data rs"
    and a: "analysis = fold (\<lambda>(e, r). AList.update (fst e) r) (zip project_data rs) []"
    unfolding analyze_project_data_def using analyze_loop_results by blast
  have "(p, data) \<in> set project_data" using assms(3) by (rule map_of_SomeD)
  from fold_update_entry[OF rs assms(2) this, of "[]"] show ?thesis by (simp add: a)
qed

lemma analyze_project_other_columns:
  assumes "analyze_project py_str data h = (Inr r, h')"
    and "name \<noteq> ''growth_rate''" and "name \<noteq> ''date''"
  shows "length h' = length h \<and> getcol (h' ! a) name = getcol (h ! a) name"
proof -
  from assms(1) obtain avg df2 where
    c: "coverage data < length h"
    and au: "augment py_str (h ! coverage data) = Inr (avg, df2)"
    and h': "h' = h[coverage data := df2]"
    unfolding analyze_project_Inr by blast
  show ?thesis
    using c augment_other_columns[OF au assms(2,3)]
    by (cases "a = coverage data") (simp_all add: h')
qed

lemma analyze_loop_other_columns:
  assumes "analyze_loop py_str pd acc h = (Inr A, h')"
    and "name \<noteq> ''growth_rate''" and "name \<noteq> ''date''"
  shows "length h' = length h \<and> getcol (h' ! a) name = getcol (h ! a) name"
  using assms(1)
proof (induction pd arbitrary: acc h)
  case Nil
  then show ?case by simp
next
  case (Cons e pd)
  obtain p d where e: "e = (p, d)" by (cases e)
  from Cons.prems obtain r h1 where step: "analyze_project py_str d h = (Inr r, h1)"
    and rest: "analyze_loop py_str pd (AList.update p r acc) h1 = (Inr A, h')"
    by (auto simp: e split: prod.splits sum.splits)
  from analyze_project_other_columns[OF step assms(2,3), of a] Cons.IH[OF rest]
  show ?case by simp
qed

text \<open>The record of a project, read off the store that the call found.\<close>

lemma analyze_project_data_record:
  assumes run: "analyze_project_data py_str project_data h = (Inr analysis, h')"
    and dist: "distinct (map fst project_data)" and p: "map_of project_data p = Some data"
  shows "\<exists>r hashes cov avg pct df2.
           map_of analysis p = Some r
         \<and> getcol (h ! crashes data) ''crash_hash'' = Inr hashes
         \<and> getcol (h ! coverage data) ''coverage'' = Inr cov
         \<and> mean cov = Inr avg \<and> pct_change cov = Inr pct
         \<and> getcol df2 ''growth_rate'' = Inr (series_mul pct (Num 100))
         \<and> getcol df2 ''coverage'' = Inr cov
         \<and> h' ! coverage data = df2
         \<and> r = \<lparr>unique_crashes = int (nunique hashes), avg_coverage = avg,
                  coverage_trend = to_dict df2\<rparr>"
proof -
  from analyze_project_data_entry[OF run dist p] obtain r where
    r: "map_of analysis p = Some r" and s: "settled py_str h' data r" by blast
  from s obtain hashes avg df2 where
    a: "coverage data < length h'"
    and hs: "getcol (h' ! crashes data) ''crash_hash'' = Inr hashes"
    and au: "augment py_str (h' ! coverage data) = Inr (avg, df2)"
    and fixed: "h' = h'[coverage data := df2]"
    and rdef: "r = \<lparr>unique_crashes = int (nunique hashes), avg_coverage = avg,
                 coverage_trend = to_dict df2\<rparr>"
    unfolding settled_def analyze_project_Inr by blast
  from fixed a have same: "h' ! coverage data = df2" by (metis nth_list_update_eq)
  from au obtain cov pct where
    cov: "getcol (h' ! coverage data) ''coverage'' = Inr cov" and avg: "mean cov = Inr avg"
    and pct: "pct_change cov = Inr pct"
    and g: "getcol df2 ''growth_rate'' = Inr (series_mul pct (Num 100))"
    by (auto simp: augment_def getcol_setcol split: sum.splits)
  have keep: "getcol (h' ! a) name = getcol (h ! a) name"
    if "name \<noteq> ''growth_rate''" "name \<noteq> ''date''" for a name
    using analyze_loop_other_columns[OF run[unfolded analyze_project_data_def] that] by simp
  have "getcol (h ! crashes data) ''crash_hash'' = Inr hashes" using hs keep by simp
  moreover have "getcol (h ! coverage data) ''coverage'' = Inr cov" using cov keep by simp
  moreover have "getcol df2 ''coverage'' = Inr cov" using cov same by simp
  ultimately show ?thesis using r avg pct g same rdef by blast
qed


lemma nunique_crash_hashes: "nunique (map Str crash_hashes) = 8"
  by (simp add: nunique_def crash_hashes_def)

lemma analyze_zlib:
  "analyze_project_data f zlib_data zlib_heap = (Inr zlib_analysis, [DataFrame crash_data, zlib_analyzed])"
proof -
  have "analyze_project f \<lparr>crashes = 0, coverage = 1\<rparr> zlib_heap
          = (Inr \<lparr>unique_crashes = 8, avg_coverage = Num (719 / 9),
                   coverage_trend = to_dict zlib_analyzed\<rparr>, [DataFrame crash_data, zlib_analyzed])"
    unfolding analyze_project_Inr
    by (simp add: zlib_heap_def augment_zlib zlib_analyzed_def getcol_def DataFrame_crash_data
          nunique_crash_hashes)
  then show ?thesis
    by (simp add: analyze_project_data_def zlib_data_def zlib_analysis_def)
qed

subsection \<open>The analyzer after the Data Provider\<close>

lemma fetch_data_loop_distinct:
  "fetch_data_loop names pd h = (Inr pd', h') \<Longrightarrow> distinct (map fst pd) \<Longrightarrow> distinct (map fst pd')"
proof (induction names arbitrary: pd h)
  case Nil
  then show ?case by simp
next
  case (Cons p names)
  then show ?case
    by (auto simp: new_def distinct_update split: option.splits)
qed

lemma provided_ready: "provided_tables h e \<Longrightarrow> ready h e"
  by (auto simp: provided_tables_def ready_def DataFrame_coverage_data getcol_def
        DataFrame_crash_data split: option.splits)

lemma astype_str_Str: "astype_str f (map Str ds) = map Str ds"
  by (induction ds) (auto simp: astype_str_def)

lemma augment_total:
  assumes "getcol df ''coverage'' = Inr (map Num cs)" and "getcol df ''date'' = Inr ds"
  shows "\<exists>avg df2. augment f df = Inr (avg, df2)"
proof -
  have "\<exists>avg. mean (map Num cs) = Inr avg"
    by (simp add: mean_def list_all_is_number_Num Let_def)
  then show ?thesis
    using assms by (auto simp: augment_def pct_change_Num getcol_setcol)
qed

lemma augment_date:
  assumes "augment f df = Inr (avg, df2)" and "getcol df ''date'' = Inr ds"
  shows "getcol df2 ''date'' = Inr (astype_str f ds)"
  using assms by (auto simp: augment_def getcol_setcol split: sum.splits)

lemma ready_analyze:
  assumes "ready h (p, d)"
  shows "\<exists>r h'. analyze_project f d h = (Inr r, h')"
proof -
  from assms obtain b where
    "crashes d < length h" "coverage d < length h"
    "getcol (h ! crashes d) ''crash_hash'' = Inr (map Str crash_hashes)"
    "getcol (h ! coverage d) ''coverage'' = Inr (map (\<lambda>off. Num (b + off)) coverage_offsets)"
    "getcol (h ! coverage d) ''date'' = Inr (map Str coverage_dates)"
    by (auto simp: ready_def split: option.splits)
  moreover have "map (\<lambda>off. Num (b + off)) coverage_offsets = map Num (map (\<lambda>off. b + off) coverage_offsets)"
    by simp
  ultimately show ?thesis
    unfolding analyze_project_Inr using augment_total[of "h ! coverage d" _ _ f] by metis
qed

lemma ready_preserved:
  assumes e: "ready h e" and step: "analyze_project f d2 h = (Inr r2, h')"
  shows "ready h' e"
proof -
  from e obtain b where b: "coverage_base (fst e) = Some b"
    and c: "crashes (snd e) < length h" and a: "coverage (snd e) < length h"
    and hs: "getcol (h ! crashes (snd e)) ''crash_hash'' = Inr (map Str crash_hashes)"
    and cov: "getcol (h ! coverage (snd e)) ''coverage''
                = Inr (map (\<lambda>off. Num (b + off)) coverage_offsets)"
    and dt: "getcol (h ! coverage (snd e)) ''date'' = Inr (map Str coverage_dates)"
    by (auto simp: ready_def split: option.splits)
  have keep: "length h' = length h \<and> getcol (h' ! x) name = getcol (h ! x) name"
    if "name \<noteq> ''growth_rate''" "name \<noteq> ''date''" for x name
    using analyze_project_other_columns[OF step that] .
  from step obtain avg df2 where
    a2: "coverage d2 < length h"
    and au: "augment f (h ! coverage d2) = Inr (avg, df2)"
    and h': "h' = h[coverage d2 := df2]"
    unfolding analyze_project_Inr by blast
  have "getcol (h' ! coverage (snd e)) ''date'' = Inr (map Str coverage_dates)"
  proof (cases "coverage (snd e) = coverage d2")
    case True
    with augment_date[OF au] dt have "getcol df2 ''date'' = Inr (map Str coverage_dates)"
      by (simp add: astype_str_Str)
    then show ?thesis using True a2 by (simp add: h')
  next
    case False
    then show ?thesis using dt by (simp add: h')
  qed
  then show ?thesis
    using b c a hs cov keep[of "''crash_hash''"] keep[of "''coverage''"]
    by (simp add: ready_def)
qed

lemma ready_loop:
  "list_all (ready h) pd \<Longrightarrow> \<exists>A h'. analyze_loop f pd acc h = (Inr A, h')"
proof (induction pd arbitrary: acc h)
  case Nil
  then show ?case by simp
next
  case (Cons e pd)
  obtain p d where e: "e = (p, d)" by (cases e)
  from Cons.prems have "ready h (p, d)" by (simp add: e)
  from ready_analyze[OF this] obtain r h1 where step: "analyze_project f d h = (Inr r, h1)"
    by blast
  have "list_all (ready h1) pd"
    using Cons.prems ready_preserved[OF _ step] by (auto simp: list_all_iff)
  from Cons.IH[OF this] show ?case by (simp add: e step)
qed

lemma provider_then_analyzer:
  assumes "set names \<subseteq> dom coverage_base"
  shows "\<exists>pd h1 A h2. fetch_project_data names h = (Inr pd, h1)
           \<and> distinct (map fst pd) \<and> fst ` set pd = set names
           \<and> list_all (provided_tables h1) pd
           \<and> analyze_project_data f pd h1 = (Inr A, h2)"
proof -
  obtain pd ext where r: "fetch_data_loop names [] h = (Inr pd, h @ ext)"
      "list_all (provided_tables (h @ ext)) pd" "fst ` set pd = set names"
    using fetch_data_loop_provided[OF assms, of h "[]"] by auto
  have d: "distinct (map fst pd)" using fetch_data_loop_distinct[OF r(1)] by simp
  have "list_all (ready (h @ ext)) pd"
    using r(2) provided_ready by (auto simp: list_all_iff)
  from ready_loop[OF this] obtain A h2 where "analyze_loop f pd [] (h @ ext) = (Inr A, h2)"
    by blast
  then show ?thesis using r d
    unfolding fetch_project_data_def analyze_project_data_def by blast
qed

subsection \<open>The claims about the analysis records\<close>

text \<open>
  Claim C5. In the analysis that \<open>analyze_project_data\<close> returns, \<open>unique_crashes\<close> of a
  project is the number of distinct values in the crash_hash column of that project's crash
  table, missing values (NaN) not counted, so equal hashes count once. For the tables of the
  Data Provider, where abc123 occurs twice among nine events, the Data Provider and the
  analyzer both return and \<open>unique_crashes\<close> is 8 for every requested project.
\<close>

theorem unique_crashes_counts_distinct_hashes:
  "(analyze_project_data py_str project_data h = (Inr analysis, h')
      \<and> distinct (map fst project_data) \<and> map_of project_data p = Some data
    \<longrightarrow> (\<exists>r hashes. map_of analysis p = Some r
           \<and> getcol (h ! crashes data) ''crash_hash'' = Inr hashes
           \<and> unique_crashes r = int (card (set hashes - {NaN}))))
   \<and> (set project_names \<subseteq> dom coverage_base
    \<longrightarrow> (\<exists>pd h1 A h2. fetch_project_data project_names h0 = (Inr pd, h1)
           \<and> analyze_project_data py_str pd h1 = (Inr A, h2)
           \<and> (\<forall>q\<in>set project_names. \<exists>r. map_of A q = Some r \<and> unique_crashes r = 8)))"
proof (intro conjI impI)
  assume run: "analyze_project_data py_str project_data h = (Inr analysis, h')
      \<and> distinct (map fst project_data) \<and> map_of project_data p = Some data"
  then obtain r hashes where
    "map_of analysis p = Some r" "getcol (h ! crashes data) ''crash_hash'' = Inr hashes"
    "unique_crashes r = int (nunique hashes)"
    using analyze_project_data_record[of py_str project_data h analysis h' p data] by force
  then show "\<exists>r hashes. map_of analysis p = Some r
           \<and> getcol (h ! crashes data) ''crash_hash'' = Inr hashes
           \<and> unique_crashes r = int (card (set hashes - {NaN}))"
    using nunique_card by auto
next
  assume known: "set project_names \<subseteq> dom coverage_base"
  from provider_then_analyzer[OF known, of h0 py_str] obtain pd h1 A h2 where
    f: "fetch_project_data project_names h0 = (Inr pd, h1)"
    and d: "distinct (map fst pd)" and k: "fst ` set pd = set project_names"
    and pr: "list_all (provided_tables h1) pd"
    and an: "analyze_project_data py_str pd h1 = (Inr A, h2)"
    by blast
  have "\<exists>r. map_of A q = Some r \<and> unique_crashes r = 8" if "q \<in> set project_names" for q
  proof -
    from that k obtain data where m: "map_of pd q = Some data"
      by (metis (no_types, opaque_lifting) domD dom_map_of_conv_image_fst)
    then have "(q, data) \<in> set pd" by (rule map_of_SomeD)
    with pr have "ready h1 (q, data)" using provided_ready by (auto simp: list_all_iff)
    then have hs: "getcol (h1 ! crashes data) ''crash_hash'' = Inr (map Str crash_hashes)"
      by (auto simp: ready_def split: option.splits)
    from analyze_project_data_record[OF an d m] obtain r hashes where
      "map_of A q = Some r" "getcol (h1 ! crashes data) ''crash_hash'' = Inr hashes"
      "unique_crashes r = int (nunique hashes)"
      by force
    with hs show ?thesis by (auto simp: nunique_crash_hashes)
  qed
  then show "\<exists>pd h1 A h2. fetch_project_data project_names h0 = (Inr pd, h1)
           \<and> analyze_project_data py_str pd h1 = (Inr A, h2)
           \<and> (\<forall>q\<in>set project_names. \<exists>r. map_of A q = Some r \<and> unique_crashes r = 8)"
    using f an by blast
qed




subsection \<open>The claims at the tables of zlib\<close>

lemma zlib_data_lookup: "distinct (map fst zlib_data) \<and> map_of zlib_data ''zlib'' = Some \<lparr>crashes = 0, coverage = 1\<rparr>"
  by (simp add: zlib_data_def)

lemma zlib_known: "set [''zlib''] \<subseteq> dom coverage_base"
  by (simp add: coverage_base_def)

theorem analyze_project_data_twice_witness:
  "analyze_project_data (env_str mock_env) zlib_data zlib_heap
      = (Inr zlib_analysis, [DataFrame crash_data, zlib_analyzed])
   \<and> analyze_project_data (env_str mock_env) zlib_data [DataFrame crash_data, zlib_analyzed]
      = (Inr zlib_analysis, [DataFrame crash_data, zlib_analyzed])"
  using analyze_project_data_twice[OF analyze_zlib] analyze_zlib by blast

theorem unique_crashes_counts_distinct_hashes_witness:
  "(\<exists>r hashes. map_of zlib_analysis ''zlib'' = Some r
       \<and> getcol (zlib_heap ! 0) ''crash_hash'' = Inr hashes
       \<and> unique_crashes r = int (card (set hashes - {NaN})))
   \<and> (\<exists>pd h1 A h2. fetch_project_data [''zlib''] [] = (Inr pd, h1)
           \<and> analyze_project_data (env_str mock_env) pd h1 = (Inr A, h2)
           \<and> (\<exists>r. map_of A ''zlib'' = Some r \<and> unique_crashes r = 8))"
  using unique_crashes_counts_distinct_hashes[of "env_str mock_env" zlib_data zlib_heap
          zlib_analysis "[DataFrame crash_data, zlib_analyzed]" "''zlib''"
          "\<lparr>crashes = 0, coverage = 1\<rparr>" "[''zlib'']" "[]"]
        analyze_zlib zlib_data_lookup zlib_known
  by simp



subsection \<open>The number of rows\<close>

lemma length_ffill: "length (ffill p xs) = length xs"
  by (induction xs arbitrary: p) auto

lemma length_pct_change: "pct_change xs = Inr pct \<Longrightarrow> length pct = length xs"
  by (auto simp: pct_change_def series_div_def series_sub_def length_shift length_ffill Let_def
        split: if_splits)

lemma nrows_setcol:
  "df \<noteq> [] \<Longrightarrow> nrows (setcol df k v) = (if fst (hd df) = k then length v else nrows df)"
  by (cases df) (auto simp: nrows_def setcol_def)

lemma hd_setcol: "df \<noteq> [] \<Longrightarrow> fst (hd (setcol df k v)) = fst (hd df)"
  by (cases df) (auto simp: setcol_def)

lemma getcol_hd: "df \<noteq> [] \<Longrightarrow> getcol df (fst (hd df)) = Inr col \<Longrightarrow> length col = nrows df"
  by (cases df) (auto simp: getcol_def nrows_def)

lemma augment_nrows:
  assumes au: "augment f df = Inr (avg, df2)" and cov: "getcol df ''coverage'' = Inr cov"
    and len: "length cov = nrows df"
  shows "nrows df2 = nrows df"
proof -
  from au cov obtain pct dates where
    pct: "pct_change cov = Inr pct"
    and dates: "getcol (setcol df ''growth_rate'' (series_mul pct (Num 100))) ''date'' = Inr dates"
    and df2: "df2 = setcol (setcol df ''growth_rate'' (series_mul pct (Num 100))) ''date''
                      (astype_str f dates)"
    by (auto simp: augment_def split: sum.splits)
  let ?df1 = "setcol df ''growth_rate'' (series_mul pct (Num 100))"
  from cov have ne: "df \<noteq> []" by (auto simp: getcol_def)
  then have ne1: "?df1 \<noteq> []" by (simp add: setcol_def)
  have n1: "nrows ?df1 = nrows df"
    using ne length_pct_change[OF pct] len by (simp add: nrows_setcol series_mul_def)
  have "nrows df2 = nrows ?df1"
  proof (cases "fst (hd ?df1) = ''date''")
    case True
    with getcol_hd[OF ne1] dates have "length dates = nrows ?df1" by simp
    then show ?thesis using True ne1 by (simp add: df2 nrows_setcol astype_str_def)
  next
    case False
    then show ?thesis using ne1 by (simp add: df2 nrows_setcol)
  qed
  with n1 show ?thesis by simp
qed

lemma analyze_project_nrows:
  assumes step: "analyze_project f d h = (Inr r, h1)"
    and cov: "getcol (h ! a) ''coverage'' = Inr cov" and len: "length cov = nrows (h ! a)"
  shows "nrows (h1 ! a) = nrows (h ! a)"
proof -
  from step obtain avg df2 where
    c: "coverage d < length h"
    and au: "augment f (h ! coverage d) = Inr (avg, df2)"
    and h1: "h1 = h[coverage d := df2]"
    unfolding analyze_project_Inr by blast
  show ?thesis
  proof (cases "a = coverage d")
    case True
    then show ?thesis using c augment_nrows[OF au] cov len by (simp add: h1)
  next
    case False
    then show ?thesis by (simp add: h1)
  qed
qed

lemma analyze_loop_nrows:
  assumes "analyze_loop f pd acc h = (Inr A, h')"
    and "getcol (h ! a) ''coverage'' = Inr cov" and "length cov = nrows (h ! a)"
  shows "nrows (h' ! a) = nrows (h ! a)"
  using assms
proof (induction pd arbitrary: acc h)
  case Nil
  then show ?case by simp
next
  case (Cons e pd)
  obtain p d where e: "e = (p, d)" by (cases e)
  from Cons.prems(1) obtain r h1 where step: "analyze_project f d h = (Inr r, h1)"
    and rest: "analyze_loop f pd (AList.update p r acc) h1 = (Inr A, h')"
    by (auto simp: e split: prod.splits sum.splits)
  have n: "nrows (h1 ! a) = nrows (h ! a)"
    using analyze_project_nrows[OF step Cons.prems(2,3)] .
  have c: "getcol (h1 ! a) ''coverage'' = Inr cov"
    using analyze_project_other_columns[OF step, of "''coverage''" a] Cons.prems(2) by simp
  from Cons.IH[OF rest c] n Cons.prems(3) show ?case by simp
qed

lemma getcol_Inr: "getcol df name = Inr col \<Longrightarrow> map_of df name = Some col"
  by (auto simp: getcol_def split: option.splits)

text \<open>
  Claim C4. For a project whose coverage column holds the finite numbers \<open>cs\<close>, the rows
  of \<open>coverage_trend\<close> are in the order of the table: row \<open>i\<close> carries coverage
  \<open>cs ! i\<close>; the growth rate of the first row is NaN, and that of every later row is
  \<open>(cs ! i - cs ! (i - 1)) / cs ! (i - 1) * 100\<close>, computed with the float division (so an
  infinity or NaN after a zero sample) and equal to the real quotient when the sample before
  is not zero. There is one row per sample when the table has as many rows as samples.
\<close>

theorem growth_rate_is_percent_change:
  assumes "analyze_project_data py_str project_data h = (Inr analysis, h')"
    and "distinct (map fst project_data)" and "map_of project_data p = Some data"
    and "getcol (h ! coverage data) ''coverage'' = Inr (map Num cs)"
  shows "\<exists>r. map_of analysis p = Some r
     \<and> (\<forall>i. i < length (coverage_trend r) \<and> i < length cs \<longrightarrow>
            map_of (coverage_trend r ! i) ''coverage'' = Some (Num (cs ! i))
          \<and> map_of (coverage_trend r ! i) ''growth_rate''
              = Some (if i = 0 then NaN
                      else fmul (fdiv (fsub (Num (cs ! i)) (Num (cs ! (i - 1)))) (Num (cs ! (i - 1))))
                                (Num 100))
          \<and> (0 < i \<and> cs ! (i - 1) \<noteq> 0 \<longrightarrow>
                map_of (coverage_trend r ! i) ''growth_rate''
                  = Some (Num ((cs ! i - cs ! (i - 1)) / cs ! (i - 1) * 100))))
     \<and> (nrows (h ! coverage data) = length cs \<longrightarrow> length (coverage_trend r) = length cs)"
proof -
  from analyze_project_data_record[OF assms(1-3)] obtain r cov pct df2 where
    r: "map_of analysis p = Some r"
    and cov: "getcol (h ! coverage data) ''coverage'' = Inr cov"
    and pct: "pct_change cov = Inr pct"
    and g: "getcol df2 ''growth_rate'' = Inr (series_mul pct (Num 100))"
    and c2: "getcol df2 ''coverage'' = Inr cov"
    and at: "h' ! coverage data = df2"
    and tr: "coverage_trend r = to_dict df2"
    by force
  from cov assms(4) have cs: "cov = map Num cs" by simp
  from pct have pct_eq: "pct = map (\<lambda>i. if i = 0 then NaN
                   else fsub (fdiv (Num (cs ! i)) (Num (cs ! (i - 1)))) (Num 1)) [0..<length cs]"
    by (simp add: cs pct_change_Num)
  have len: "length (coverage_trend r) = nrows df2" by (simp add: tr to_dict_def)
  have row: "map_of (coverage_trend r ! i) ''coverage'' = Some (Num (cs ! i))
          \<and> map_of (coverage_trend r ! i) ''growth_rate''
              = Some (if i = 0 then NaN
                      else fmul (fdiv (fsub (Num (cs ! i)) (Num (cs ! (i - 1)))) (Num (cs ! (i - 1))))
                                (Num 100))
          \<and> (0 < i \<and> cs ! (i - 1) \<noteq> 0 \<longrightarrow>
                map_of (coverage_trend r ! i) ''growth_rate''
                  = Some (Num ((cs ! i - cs ! (i - 1)) / cs ! (i - 1) * 100)))"
    if i: "i < length (coverage_trend r)" "i < length cs" for i
  proof -
    from i len have "i < nrows df2" by simp
    then have look: "map_of (coverage_trend r ! i) name
                       = map_option (\<lambda>col. cell_at col i) (map_of df2 name)" for name
      by (simp add: tr to_dict_row)
    have a: "map_of (coverage_trend r ! i) ''coverage'' = Some (Num (cs ! i))"
      using i(2) by (simp add: look getcol_Inr[OF c2] cs cell_at_def)
    have b: "map_of (coverage_trend r ! i) ''growth_rate''
               = Some (fmul (if i = 0 then NaN
                      else fsub (fdiv (Num (cs ! i)) (Num (cs ! (i - 1)))) (Num 1)) (Num 100))"
      using i(2) by (simp add: look getcol_Inr[OF g] pct_eq cell_at_def series_mul_def)
    have b0: "map_of (coverage_trend r ! i) ''growth_rate'' = Some NaN" if "i = 0"
      using b that by simp
    have b1: "map_of (coverage_trend r ! i) ''growth_rate''
               = Some (fmul (fsub (fdiv (Num (cs ! i)) (Num (cs ! (i - 1)))) (Num 1)) (Num 100))"
      if "i \<noteq> 0"
      using b that by (simp del: fdiv.simps fmul.simps)
    have b2: "map_of (coverage_trend r ! i) ''growth_rate''
               = Some (fmul (fdiv (fsub (Num (cs ! i)) (Num (cs ! (i - 1)))) (Num (cs ! (i - 1))))
                            (Num 100))"
      if "i \<noteq> 0"
      using b1[OF that] by (simp only: growth_formula)
    have b3: "map_of (coverage_trend r ! i) ''growth_rate''
               = Some (Num ((cs ! i - cs ! (i - 1)) / cs ! (i - 1) * 100))"
      if "i \<noteq> 0" "cs ! (i - 1) \<noteq> 0"
      using b1[OF that(1)] growth_formula_nonzero[OF that(2), of "cs ! i"] by (simp only:)
    show ?thesis
    proof (cases "i = 0")
      case True
      then show ?thesis using a b0 by simp
    next
      case False
      then show ?thesis using a b2 b3 by (simp del: fdiv.simps fmul.simps)
    qed
  qed
  have "length (coverage_trend r) = length cs" if wf: "nrows (h ! coverage data) = length cs"
  proof -
    have "nrows (h' ! coverage data) = nrows (h ! coverage data)"
      using analyze_loop_nrows[OF assms(1)[unfolded analyze_project_data_def] assms(4)] wf
      by simp
    then show ?thesis using len at wf by simp
  qed
  with r row show ?thesis by blast
qed

theorem growth_rate_is_percent_change_witness:
  "getcol (zlib_heap ! 1) ''coverage'' = Inr (map Num [70, 73, 75, 77, 80, 82, 85, 87, 90])
   \<and> (\<exists>r. map_of zlib_analysis ''zlib'' = Some r
        \<and> length (coverage_trend r) = 9
        \<and> map_of (coverage_trend r ! 0) ''growth_rate'' = Some NaN
        \<and> map_of (coverage_trend r ! 1) ''growth_rate'' = Some (Num ((73 - 70) / 70 * 100)))"
proof -
  have c: "getcol (zlib_heap ! coverage \<lparr>crashes = 0, coverage = 1\<rparr>) ''coverage''
             = Inr (map Num [70, 73, 75, 77, 80, 82, 85, 87, 90])"
    by (simp add: zlib_heap_def zlib_coverage_def getcol_def)
  have n: "nrows (zlib_heap ! coverage \<lparr>crashes = 0, coverage = 1\<rparr>) = 9"
    by (simp add: zlib_heap_def zlib_coverage_def nrows_def coverage_dates_def)
  from growth_rate_is_percent_change[OF analyze_zlib conjunct1[OF zlib_data_lookup]
          conjunct2[OF zlib_data_lookup] c]
  obtain r where r: "map_of zlib_analysis ''zlib'' = Some r"
    and rows: "\<And>i. i < length (coverage_trend r) \<and> i < 9 \<longrightarrow>
          map_of (coverage_trend r ! i) ''growth_rate''
              = Some (if i = 0 then NaN
                      else fmul (fdiv (fsub (Num ([70, 73, 75, 77, 80, 82, 85, 87, 90] ! i))
                                            (Num ([70, 73, 75, 77, 80, 82, 85, 87, 90] ! (i - 1))))
                                      (Num ([70, 73, 75, 77, 80, 82, 85, 87, 90] ! (i - 1))))
                                (Num 100))"
    and len: "length (coverage_trend r) = 9"
    using n by auto
  from rows[of 0] rows[of 1] len
  have "map_of (coverage_trend r ! 0) ''growth_rate'' = Some NaN"
    "map_of (coverage_trend r ! 1) ''growth_rate'' = Some (Num ((73 - 70) / 70 * 100))"
    by (simp_all add: fsub_def)
  with r len c show ?thesis by simp
qed


section \<open>The whole pipeline on zlib\<close>

lemma strptime_dates:
  "map strptime_dmy coverage_dates =
     [Some (2025, 1, 15), Some (2025, 1, 28), Some (2025, 1, 31), Some (2025, 2, 10), Some (2025, 2, 20),
      Some (2025, 2, 25), Some (2025, 3, 6), Some (2025, 3, 6), Some (2025, 3, 15)]"
  by (simp add: coverage_dates_def strptime_dmy_def two_digits_def digit_value_def)

lemma to_datetime_dates: "to_datetime strptime_dmy (map Str coverage_dates) = Inr zlib_timestamps"
proof -
  have "map (datetime_cell strptime_dmy) (map Str coverage_dates) = map Some zlib_timestamps"
    using strptime_dates by (simp add: datetime_cell_def coverage_dates_def zlib_timestamps_def)
  then have *: "map (datetime_cell strptime_dmy \<circ> Str) coverage_dates = map Some zlib_timestamps"
    by simp
  have "list_all (\<lambda>c. datetime_cell strptime_dmy c \<noteq> None) (map Str coverage_dates)"
    using * by (simp add: list_all_iff coverage_dates_def zlib_timestamps_def)
  moreover have "map (\<lambda>c. the (datetime_cell strptime_dmy c)) (map Str coverage_dates) = zlib_timestamps"
    using * by (simp add: coverage_dates_def zlib_timestamps_def)
  ultimately show ?thesis by (simp add: to_datetime_def)
qed

lemma sort_zlib:
  "sort_key (\<lambda>i. sort_key_of (cell_at zlib_timestamps i)) [0..<9] = [0, 1, 2, 3, 4, 5, 6, 7, 8]"
  by (simp add: upt_conv_Cons sort_key_of_def cell_at_def zlib_timestamps_def less_eq_prod_def)

lemma plot_project_zlib:
  "plot_project strptime_dmy zlib_data ''zlib'' [DataFrame crash_data, zlib_analyzed]
     = (Inr (''zlib'', zlib_timestamps, map Num [70, 73, 75, 77, 80, 82, 85, 87, 90]),
        [DataFrame crash_data, zlib_analyzed, zlib_plotted, zlib_plotted])"
proof -
  have d: "getcol zlib_analyzed ''date'' = Inr (map Str coverage_dates)"
    by (simp add: zlib_analyzed_def zlib_coverage_def getcol_def)
  have s: "setcol zlib_analyzed ''date'' zlib_timestamps = zlib_plotted"
    by (simp add: zlib_analyzed_def zlib_coverage_def setcol_def zlib_plotted_def)
  have n: "nrows zlib_plotted = 9"
    by (simp add: zlib_plotted_def nrows_def zlib_timestamps_def)
  have g: "getcol zlib_plotted ''date'' = Inr zlib_timestamps"
      "getcol zlib_plotted ''coverage'' = Inr (map Num [70, 73, 75, 77, 80, 82, 85, 87, 90])"
    by (simp_all add: zlib_plotted_def getcol_def)
  have same: "map (\<lambda>(n, c). (n, map (cell_at c) [0, 1, 2, 3, 4, 5, 6, 7, 8])) zlib_plotted = zlib_plotted"
    unfolding zlib_plotted_def zlib_timestamps_def zlib_growth_def
    by (simp add: cell_at_def)
  have so: "sort_values zlib_plotted ''date'' = Inr zlib_plotted"
    using same by (simp add: sort_values_def g n sort_zlib)
  show ?thesis
    by (simp add: plot_project_def zlib_data_def deref_def new_def d to_datetime_dates s so g)
qed

lemma plot_zlib:
  "plot_coverage_trends mock_env zlib_data [''zlib''] [DataFrame crash_data, zlib_analyzed] t
     = (Inr (), [DataFrame crash_data, zlib_analyzed, zlib_plotted, zlib_plotted],
        t @ [SaveFig chart_path zlib_figure])"
  by (simp add: plot_coverage_trends_def mock_env_def plot_project_zlib zlib_figure_def)

lemma raw_data_zlib:
  "raw_data_loop zlib_data [] [DataFrame crash_data, zlib_analyzed, zlib_plotted, zlib_plotted]
     = (Inr [(''zlib'', PDict [(''crashes'', records_obj (to_dict (DataFrame crash_data))),
                               (''coverage'', records_obj (to_dict zlib_analyzed))])],
        [DataFrame crash_data, zlib_analyzed, zlib_plotted, zlib_plotted,
         DataFrame crash_data, zlib_analyzed])"
  by (simp add: zlib_data_def deref_def new_def)

lemma metadata_zlib:
  "fetch_project_metadata (env_get mock_env) [''zlib''] t
     = (Inr [(''zlib'', not_found)], t @ [HttpGet (project_url ''zlib'')])"
  by (simp add: fetch_project_metadata_def mock_env_def)

lemma main_zlib:
  "main mock_env [''zlib''] \<lparr>heap = [], trace = []\<rparr>
     = (Inr (), \<lparr>heap = [DataFrame crash_data, zlib_analyzed, zlib_plotted, zlib_plotted,
                           DataFrame crash_data, zlib_analyzed],
                  trace = [HttpGet (project_url ''zlib''), SaveFig chart_path zlib_figure,
                           OpenW report_path, JsonDump report_path zlib_report]\<rparr>)"
proof -
  have w: "env_writable mock_env report_path" by (simp add: mock_env_def)
  have s: "serializable zlib_report"
    unfolding zlib_report_def
    by (simp add: not_found_def analysis_obj_def zlib_analysis_def records_obj_def to_dict_def
          zlib_analyzed_def zlib_coverage_def nrows_def coverage_dates_def cell_at_def
          zlib_growth_def DataFrame_def crash_data_def first_seen_def upt_conv_Cons)
  have m: "fetch_project_metadata (env_get mock_env) [''zlib''] (trace \<lparr>heap = [], trace = []\<rparr>)
             = (Inr [(''zlib'', not_found)], [HttpGet (project_url ''zlib'')])"
    by (simp add: metadata_zlib)
  have f: "fetch_project_data [''zlib''] (heap \<lparr>heap = [], trace = []\<rparr>) = (Inr zlib_data, zlib_heap)"
    by (simp add: fetch_zlib zlib_heap_def)
  show ?thesis
    unfolding main_def m f
    using w s[unfolded zlib_report_def]
    by (simp add: analyze_zlib plot_zlib raw_data_zlib zlib_report_def)
qed


section \<open>Properties of the Trend Renderer\<close>

subsection \<open>The plotting loop only adds objects to the store\<close>

lemma plot_project_extends:
  "plot_project parse pd p h = (r, h') \<Longrightarrow> \<exists>ext. h' = h @ ext"
  by (auto simp: plot_project_def new_def deref_def Let_def list_update_append
        split: option.splits sum.splits if_splits)

lemma plot_loop_extends:
  "plot_loop parse pd names drawn h = (r, h') \<Longrightarrow> \<exists>ext. h' = h @ ext"
proof (induction names arbitrary: drawn h)
  case Nil
  then show ?case by simp
next
  case (Cons p names)
  obtain r1 h1 where step: "plot_project parse pd p h = (r1, h1)" by (cases "plot_project parse pd p h")
  from plot_project_extends[OF step] obtain e1 where h1: "h1 = h @ e1" by blast
  show ?case
  proof (cases r1)
    case (Inl e)
    with Cons.prems step h1 show ?thesis by auto
  next
    case (Inr line)
    with Cons.prems step have "plot_loop parse pd names (drawn @ [line]) h1 = (r, h')" by simp
    from Cons.IH[OF this] h1 show ?thesis by auto
  qed
qed

text \<open>
  Claim C10. Whatever \<open>plot_coverage_trends\<close> returns, every object that was in the store
  before the call is the same after it: the date parsing and the sorting work on objects the
  call itself made. So each stored coverage table that \<open>project_data\<close> points at has the
  same columns, the same rows in the same order and the same cells (its dates are still the
  strings they were).
\<close>

theorem plot_coverage_trends_keeps_tables:
  assumes "plot_coverage_trends e project_data project_names h t = (r, h', t')"
  shows "take (length h) h' = h
       \<and> (\<forall>p data. map_of project_data p = Some data \<and> coverage data < length h
             \<longrightarrow> h' ! coverage data = h ! coverage data
               \<and> to_dict (h' ! coverage data) = to_dict (h ! coverage data))"
proof -
  obtain r0 h0 where l: "plot_loop (env_strptime e) project_data project_names [] h = (r0, h0)"
    by (cases "plot_loop (env_strptime e) project_data project_names [] h")
  with assms have "h' = h0"
    by (auto simp: plot_coverage_trends_def split: sum.splits if_splits)
  with plot_loop_extends[OF l] obtain ext where "h' = h @ ext" by blast
  then show ?thesis by (auto simp: nth_append)
qed

theorem plot_coverage_trends_keeps_tables_witness:
  "plot_coverage_trends mock_env zlib_data [''zlib''] [DataFrame crash_data, zlib_analyzed] []
     = (Inr (), [DataFrame crash_data, zlib_analyzed, zlib_plotted, zlib_plotted],
        [SaveFig chart_path zlib_figure])
   \<and> take 2 [DataFrame crash_data, zlib_analyzed, zlib_plotted, zlib_plotted]
       = [DataFrame crash_data, zlib_analyzed]
   \<and> getcol ([DataFrame crash_data, zlib_analyzed, zlib_plotted, zlib_plotted] ! 1) ''date''
       = Inr (map Str coverage_dates)"
  using plot_coverage_trends_keeps_tables[OF plot_zlib[of "[]"]] plot_zlib[of "[]"]
  by (simp add: zlib_analyzed_def zlib_coverage_def getcol_def)


section \<open>Properties of the Metadata Fetcher\<close>

lemma fetch_metadata_loop_step:
  "metadata_for get p = Some v \<Longrightarrow>
     fetch_metadata_loop get (p # rest) acc t
       = fetch_metadata_loop get rest (AList.update p v acc) (t @ [HttpGet (project_url p)])"
  by (auto simp: metadata_for_def Let_def split: sum.splits if_splits)

lemma fetch_metadata_loop_fail:
  "metadata_for get p = None \<Longrightarrow>
     \<exists>e. fetch_metadata_loop get (p # rest) acc t = (Inl e, t @ [HttpGet (project_url p)])"
  by (auto simp: metadata_for_def Let_def split: sum.splits if_splits)

lemma fetch_metadata_loop_Inr:
  assumes "fetch_metadata_loop get names acc t = (Inr metadata, t')"
  shows "(\<forall>q\<in>set names. metadata_for get q \<noteq> None)
       \<and> (\<forall>p. map_of metadata p = (if p \<in> set names then metadata_for get p else map_of acc p))
       \<and> t' = t @ map (\<lambda>p. HttpGet (project_url p)) names"
  using assms
proof (induction names arbitrary: acc t)
  case Nil
  then show ?case by simp
next
  case (Cons x names)
  show ?case
  proof (cases "metadata_for get x")
    case None
    from fetch_metadata_loop_fail[OF None, of names acc t] Cons.prems show ?thesis by auto
  next
    case (Some v)
    from Cons.prems have "fetch_metadata_loop get names (AList.update x v acc)
                             (t @ [HttpGet (project_url x)]) = (Inr metadata, t')"
      by (simp only: fetch_metadata_loop_step[OF Some])
    from Cons.IH[OF this] show ?thesis using Some by (auto simp: update_conv')
  qed
qed

lemma fetch_metadata_loop_total:
  assumes "\<forall>q\<in>set names. metadata_for get q \<noteq> None"
  shows "\<exists>metadata. fetch_metadata_loop get names acc t
            = (Inr metadata, t @ map (\<lambda>p. HttpGet (project_url p)) names)"
  using assms
proof (induction names arbitrary: acc t)
  case Nil
  then show ?case by simp
next
  case (Cons x names)
  then obtain v where v: "metadata_for get x = Some v" by auto
  from Cons.prems have "\<forall>q\<in>set names. metadata_for get q \<noteq> None" by simp
  from Cons.IH[OF this, of "AList.update x v acc" "t @ [HttpGet (project_url x)]"]
  show ?case by (simp only: fetch_metadata_loop_step[OF v]) simp
qed

text \<open>
  Claim C8. When \<open>fetch_project_metadata\<close> returns, then for every requested project the
  request was answered, and the dict holds under the project's key the decoded body of the
  response as it is when the status is 200, and exactly \<open>{"error": "Project not found"}\<close>
  for any other status. A response that is not 200 never makes the call raise: when every
  request is answered, and every 200 answer has a body that decodes, the call returns, having
  sent one request per project in the order of the list.
\<close>

theorem fetch_project_metadata_records:
  "(fetch_project_metadata get project_names t = (Inr metadata, t') \<and> p \<in> set project_names
      \<longrightarrow> (\<exists>resp. get (project_url p) = Inr resp
             \<and> (status_code resp = 200 \<longrightarrow>
                   (\<exists>body. json_body resp = Inr body \<and> map_of metadata p = Some body))
             \<and> (status_code resp \<noteq> 200 \<longrightarrow> map_of metadata p = Some not_found)))
   \<and> ((\<forall>q\<in>set project_names. \<exists>resp. get (project_url q) = Inr resp
            \<and> (status_code resp = 200 \<longrightarrow> (\<exists>body. json_body resp = Inr body)))
      \<longrightarrow> (\<exists>metadata. fetch_project_metadata get project_names t
              = (Inr metadata, t @ map (\<lambda>q. HttpGet (project_url q)) project_names)))"
proof (intro conjI impI)
  assume a: "fetch_project_metadata get project_names t = (Inr metadata, t') \<and> p \<in> set project_names"
  from fetch_metadata_loop_Inr[OF a[THEN conjunct1, unfolded fetch_project_metadata_def]] a
  have some: "metadata_for get p \<noteq> None" and look: "map_of metadata p = metadata_for get p"
    by auto
  from some obtain resp where resp: "get (project_url p) = Inr resp"
    by (auto simp: metadata_for_def split: sum.splits)
  show "\<exists>resp. get (project_url p) = Inr resp
             \<and> (status_code resp = 200 \<longrightarrow>
                   (\<exists>body. json_body resp = Inr body \<and> map_of metadata p = Some body))
             \<and> (status_code resp \<noteq> 200 \<longrightarrow> map_of metadata p = Some not_found)"
    using some look resp by (auto simp: metadata_for_def split: sum.splits if_splits)
next
  assume "\<forall>q\<in>set project_names. \<exists>resp. get (project_url q) = Inr resp
            \<and> (status_code resp = 200 \<longrightarrow> (\<exists>body. json_body resp = Inr body))"
  then have "\<forall>q\<in>set project_names. metadata_for get q \<noteq> None"
    by (auto simp: metadata_for_def split: sum.splits)
  from fetch_metadata_loop_total[OF this]
  show "\<exists>metadata. fetch_project_metadata get project_names t
              = (Inr metadata, t @ map (\<lambda>q. HttpGet (project_url q)) project_names)"
    by (simp add: fetch_project_metadata_def)
qed

theorem fetch_project_metadata_records_witness:
  "fetch_project_metadata only_zlib [''zlib'', ''nope''] []
       = (Inr [(''zlib'', zlib_descriptor), (''nope'', not_found)],
          [HttpGet (project_url ''zlib''), HttpGet (project_url ''nope'')])
   \<and> map_of [(''zlib'', zlib_descriptor), (''nope'', not_found)] ''zlib'' = Some zlib_descriptor
   \<and> map_of [(''zlib'', zlib_descriptor), (''nope'', not_found)] ''nope'' = Some not_found"
proof -
  have run: "fetch_project_metadata only_zlib [''zlib'', ''nope''] []
       = (Inr [(''zlib'', zlib_descriptor), (''nope'', not_found)],
          [HttpGet (project_url ''zlib''), HttpGet (project_url ''nope'')])"
    by (simp add: fetch_project_metadata_def only_zlib_def project_url_def)
  have "''zlib'' \<in> set [''zlib'', ''nope'']" "''nope'' \<in> set [''zlib'', ''nope'']" by simp_all
  with run fetch_project_metadata_records[of only_zlib "[''zlib'', ''nope'']" "[]"
         "[(''zlib'', zlib_descriptor), (''nope'', not_found)]"
         "[HttpGet (project_url ''zlib''), HttpGet (project_url ''nope'')]" "''zlib''"]
       fetch_project_metadata_records[of only_zlib "[''zlib'', ''nope'']" "[]"
         "[(''zlib'', zlib_descriptor), (''nope'', not_found)]"
         "[HttpGet (project_url ''zlib''), HttpGet (project_url ''nope'')]" "''nope''"]
  show ?thesis by (simp add: only_zlib_def project_url_def)
qed


section \<open>Properties of the Orchestrator\<close>







section \<open>The analyzer and the stored tables\<close>

text \<open>
  Claim C1 says that the analyzer leaves the stored coverage table as the Data Provider made
  it, and that \<open>raw_data\<close> therefore has the columns date and coverage only. The run of the
  program on zlib shows otherwise: the Data Provider stores a table with the columns date and
  coverage; after \<open>analyze_project_data\<close> the table at the same address has the columns
  date, coverage and growth_rate; and the report that \<open>main\<close> writes has, under
  \<open>raw_data\<close>, the rows of that table, each with a growth_rate (NaN in the first).
\<close>

theorem analyzer_writes_growth_rate_into_stored_table:
  "fetch_project_data [''zlib''] [] = (Inr zlib_data, zlib_heap)
   \<and> map_of zlib_data ''zlib'' = Some \<lparr>crashes = 0, coverage = 1\<rparr>
   \<and> map fst (zlib_heap ! 1) = [''date'', ''coverage'']
   \<and> analyze_project_data (env_str mock_env) zlib_data zlib_heap
       = (Inr zlib_analysis, [DataFrame crash_data, zlib_analyzed])
   \<and> map fst ([DataFrame crash_data, zlib_analyzed] ! 1) = [''date'', ''coverage'', ''growth_rate'']
   \<and> [DataFrame crash_data, zlib_analyzed] ! 1 \<noteq> zlib_heap ! 1
   \<and> (\<exists>w'. main mock_env [''zlib''] \<lparr>heap = [], trace = []\<rparr> = (Inr (), w')
          \<and> last (trace w') = JsonDump report_path zlib_report)
   \<and> zlib_report =
        PDict [(''metadata'', PDict [(''zlib'', not_found)]),
               (''analysis'', analysis_obj zlib_analysis),
               (''raw_data'',
                  PDict [(''zlib'', PDict [(''crashes'', records_obj (to_dict (DataFrame crash_data))),
                                           (''coverage'', records_obj (to_dict zlib_analyzed))])])]
   \<and> to_dict zlib_analyzed ! 0
        = [(''date'', Str ''15-01-2025''), (''coverage'', Num 70), (''growth_rate'', NaN)]"
proof -
  have a: "fetch_project_data [''zlib''] [] = (Inr zlib_data, zlib_heap)"
    by (simp add: fetch_zlib zlib_heap_def)
  have b: "map fst (zlib_heap ! 1) = [''date'', ''coverage'']"
    by (simp add: zlib_heap_def zlib_coverage_def)
  have c: "map fst ([DataFrame crash_data, zlib_analyzed] ! 1) = [''date'', ''coverage'', ''growth_rate'']"
    by (simp add: zlib_analyzed_def zlib_coverage_def)
  have d: "[DataFrame crash_data, zlib_analyzed] ! 1 \<noteq> zlib_heap ! 1"
    by (simp add: zlib_heap_def zlib_analyzed_def)
  have e: "\<exists>w'. main mock_env [''zlib''] \<lparr>heap = [], trace = []\<rparr> = (Inr (), w')
          \<and> last (trace w') = JsonDump report_path zlib_report"
    by (simp add: main_zlib)
  have f: "to_dict zlib_analyzed ! 0
        = [(''date'', Str ''15-01-2025''), (''coverage'', Num 70), (''growth_rate'', NaN)]"
    by (simp add: to_dict_def zlib_analyzed_def zlib_coverage_def nrows_def coverage_dates_def
          cell_at_def zlib_growth_def upt_conv_Cons)
  show ?thesis
    using a b c d e f analyze_zlib zlib_data_lookup by (simp add: zlib_report_def)
qed

end
